theory Spec2Isabelle
  imports Main "HOL-Library.Word" "HOL-Library.Signed_Division"
begin

unbundle bit_operations_syntax

section \<open>Data model of \<^verbatim>\<open>pguuidv7.c\<close>\<close>

type_synonym u8 = "8 word"
type_synonym u32 = "32 word"
type_synonym u64 = "64 word"

text \<open>\<^verbatim>\<open>UUID_LEN\<close> comes from PostgreSQL's \<^verbatim>\<open>utils/uuid.h\<close>, where it is 16.\<close>

definition UUID_LEN :: nat where
  "UUID_LEN = 16"

text \<open>
  \<^verbatim>\<open>struct timeval\<close> as \<^verbatim>\<open>gettimeofday\<close> fills it on an LP64 platform: both
  fields are signed 64-bit integers, kept here as their bit patterns.
\<close>

record timeval =
  tv_sec :: u64
  tv_usec :: u64

text \<open>
  The two \<^verbatim>\<open>static\<close> variables of \<^verbatim>\<open>uuidv7\<close> (lines 65 and 66). They live
  as long as the backend does, so a call takes them and gives them back.
\<close>

record gen_state =
  sequence_counter :: u32
  previous_timestamp :: u64

text \<open>The only error the function reports (lines 82 and 120).\<close>

datatype error = ERRCODE_INTERNAL_ERROR

text \<open>
  The random source is outside the function: asked for \<open>len\<close> bytes it refuses
  (\<open>None\<close>) or supplies bytes, read here by their index in the reply.
\<close>

type_synonym random_source = "nat \<Rightarrow> (nat \<Rightarrow> u8) option"

section \<open>The environment's operations\<close>

text \<open>
  \<^verbatim>\<open>palloc(n)\<close> returns \<open>n\<close> bytes whose contents are whatever the heap held
  before; \<open>junk\<close> says what that was.
\<close>

definition palloc :: "(nat \<Rightarrow> u8) \<Rightarrow> nat \<Rightarrow> u8 list" where
  "palloc junk n = map junk [0..<n]"

text \<open>
  \<^verbatim>\<open>pg_strong_random(&data[off], len)\<close>: on success the \<open>len\<close> bytes from
  offset \<open>off\<close> are replaced by the random bytes and all other bytes are kept; on
  failure there is no buffer to speak of, since the caller raises.
\<close>

definition pg_strong_random :: "random_source \<Rightarrow> u8 list \<Rightarrow> nat \<Rightarrow> nat \<Rightarrow> u8 list option" where
  "pg_strong_random rng data off len =
     (case rng len of
        None \<Rightarrow> None
      | Some bs \<Rightarrow> Some (take off data @ map bs [0..<len] @ drop (off + len) data))"

section \<open>The function \<^verbatim>\<open>uuidv7\<close>\<close>

text \<open>Line 74: the clock reading in milliseconds, in unsigned 64-bit arithmetic;
  the division of the signed \<^verbatim>\<open>tv_usec\<close> truncates towards zero.\<close>

definition now_ms :: "timeval \<Rightarrow> u64" where
  "now_ms tp = tv_sec tp * 1000 + word_of_int (sint (tv_usec tp) sdiv 1000)"

text \<open>Lines 95 to 97: the counter as read back from bytes 6, 7 and 8.\<close>

definition read_counter :: "u8 \<Rightarrow> u8 \<Rightarrow> u8 \<Rightarrow> u32" where
  "read_counter b6 b7 b8 =
     (ucast b8 AND 0x3f) + push_bit 6 (ucast b7) + push_bit 14 (ucast b6 AND 0x0f)"

text \<open>Lines 125 to 129: the counter as written to bytes 6, 7 and 8.\<close>

definition write_counter :: "u8 list \<Rightarrow> u32 \<Rightarrow> u8 list" where
  "write_counter data sc =
     data[6 := ucast (drop_bit 14 sc), 7 := ucast (drop_bit 6 sc), 8 := ucast sc]"

text \<open>Lines 133 to 138: the time part.\<close>

definition fill_time_part :: "u8 list \<Rightarrow> u64 \<Rightarrow> u8 list" where
  "fill_time_part data tms =
     data[0 := ucast (drop_bit 40 tms), 1 := ucast (drop_bit 32 tms),
          2 := ucast (drop_bit 24 tms), 3 := ucast (drop_bit 16 tms),
          4 := ucast (drop_bit 8 tms), 5 := ucast tms]"

text \<open>Lines 145 and 147: version and variant.\<close>

definition set_magic_numbers :: "u8 list \<Rightarrow> u8 list" where
  "set_magic_numbers data =
     (let data = data[6 := (data ! 6 AND 0x0f) OR 0x70]
      in data[8 := (data ! 8 AND 0x3f) OR 0x80])"

text \<open>Lines 107 to 113: the counter step of the branch where time did not advance.\<close>

definition increment_counter :: "gen_state \<Rightarrow> gen_state" where
  "increment_counter st =
     (let st = st\<lparr>sequence_counter := sequence_counter st + 1\<rparr>
      in if sequence_counter st > 0x3ffff
         then st\<lparr>sequence_counter := 0, previous_timestamp := previous_timestamp st + 1\<rparr>
         else st)"

text \<open>
  The whole function. It returns the error or the 16 bytes, and the static variables as
  the call leaves them: \<^verbatim>\<open>ereport(ERROR, ...)\<close> leaves the function at once, and
  assignments to static variables made before it stay.
\<close>

definition uuidv7 ::
  "gen_state \<Rightarrow> timeval \<Rightarrow> (nat \<Rightarrow> u8) \<Rightarrow> random_source \<Rightarrow> (error + u8 list) \<times> gen_state" where
  "uuidv7 st tp junk rng =
     (let uuid = palloc junk UUID_LEN;
          tms = now_ms tp;
          time_tick_forward = (tms > previous_timestamp st)
      in if time_tick_forward then
           (case pg_strong_random rng uuid 6 (UUID_LEN - 6) of
              None \<Rightarrow> (Inl ERRCODE_INTERNAL_ERROR, st)
            | Some uuid \<Rightarrow>
                let uuid = uuid[6 := uuid ! 6 AND 0xf7];
                    st = st\<lparr>sequence_counter := read_counter (uuid ! 6) (uuid ! 7) (uuid ! 8)\<rparr>;
                    st = st\<lparr>previous_timestamp := tms\<rparr>
                in (Inr (set_magic_numbers (fill_time_part uuid tms)), st))
         else
           (let st = increment_counter st;
                tms = previous_timestamp st
            in case pg_strong_random rng uuid 9 (UUID_LEN - 9) of
                 None \<Rightarrow> (Inl ERRCODE_INTERNAL_ERROR, st)
               | Some uuid \<Rightarrow>
                   let uuid = write_counter uuid (sequence_counter st)
                   in (Inr (set_magic_numbers (fill_time_part uuid tms)), st)))"

section \<open>Reading an identifier\<close>

text \<open>A byte string as a big-endian unsigned integer.\<close>

definition be_nat :: "u8 list \<Rightarrow> nat" where
  "be_nat bs = foldl (\<lambda>a b. a * 256 + unat b) 0 bs"

definition uuid_int :: "u8 list \<Rightarrow> nat" where
  "uuid_int uuid = be_nat uuid"

definition decoded_timestamp :: "u8 list \<Rightarrow> nat" where
  "decoded_timestamp uuid = be_nat (take 6 uuid)"

text \<open>The counter of an identifier, read the way line 95 reads it.\<close>

definition decoded_counter :: "u8 list \<Rightarrow> u32" where
  "decoded_counter uuid = read_counter (uuid ! 6) (uuid ! 7) (uuid ! 8)"

text \<open>The six bytes of the time part.\<close>

definition time_bytes :: "u64 \<Rightarrow> u8 list" where
  "time_bytes tms =
     [ucast (drop_bit 40 tms), ucast (drop_bit 32 tms), ucast (drop_bit 24 tms),
      ucast (drop_bit 16 tms), ucast (drop_bit 8 tms), ucast tms]"

section \<open>Consecutive calls\<close>

text \<open>
  What one call receives from outside: the clock reading, the contents of the freshly
  allocated memory and the random source as it answers during that call.
\<close>

type_synonym call_env = "timeval \<times> (nat \<Rightarrow> u8) \<times> random_source"

text \<open>
  Calls made one after another in one backend: each starts from the static variables
  the previous one left, whether it returned or raised. The result lists, for every
  call, what it returned and the static variables after it.
\<close>

fun calls :: "gen_state \<Rightarrow> call_env list \<Rightarrow> ((error + u8 list) \<times> gen_state) list" where
  "calls st [] = []"
| "calls st ((tp, junk, rng) # envs) =
     (let r = uuidv7 st tp junk rng in r # calls (snd r) envs)"

text \<open>The identifiers returned by the calls that succeeded, in call order.\<close>

fun identifiers :: "((error + u8 list) \<times> gen_state) list \<Rightarrow> u8 list list" where
  "identifiers [] = []"
| "identifiers ((Inl e, st) # rs) = identifiers rs"
| "identifiers ((Inr uuid, st) # rs) = uuid # identifiers rs"

section \<open>Comparing states and identifiers\<close>

text \<open>
  The first nine bytes of the identifier that carries the given static variables, as a
  number: the timestamp, version 7, the counter and variant 10, each in its place.
\<close>

definition state_rank :: "gen_state \<Rightarrow> nat" where
  "state_rank st =
     unat (previous_timestamp st) * 2 ^ 24 + 0x700080 +
     (unat (sequence_counter st) div 64) * 256 + unat (sequence_counter st) mod 64"

text \<open>The static variables compared as the pair of timestamp and counter.\<close>

definition state_less :: "gen_state \<Rightarrow> gen_state \<Rightarrow> bool" where
  "state_less a b \<longleftrightarrow>
     previous_timestamp a < previous_timestamp b \<or>
     (previous_timestamp a = previous_timestamp b \<and> sequence_counter a < sequence_counter b)"

section \<open>Example inputs\<close>

text \<open>Fresh memory that holds zeros, a random source that refuses, and one that
  answers every request with the same byte.\<close>

definition zero_heap :: "nat \<Rightarrow> u8" where
  "zero_heap i = 0"

definition rng_fail :: random_source where
  "rng_fail len = None"

definition rng_const :: "u8 \<Rightarrow> random_source" where
  "rng_const b len = Some (\<lambda>i. b)"

section \<open>Evaluating the function\<close>

lemmas uuidv7_eval = uuidv7_def UUID_LEN_def palloc_def pg_strong_random_def now_ms_def
  signed_divide_int_def fill_time_part_def set_magic_numbers_def write_counter_def
  read_counter_def increment_counter_def Let_def upt_rec zero_heap_def rng_fail_def
  rng_const_def

lemma upt_16: "[0..<16] = [0, 1, 2, 3, 4, 5, 6, 7, 8, 9, 10, 11, 12, 13, 14, 15]"
  by (simp add: upt_rec)

lemma upt_10: "[0..<10] = [0, 1, 2, 3, 4, 5, 6, 7, 8, 9]"
  by (simp add: upt_rec)

lemma upt_7: "[0..<7] = [0, 1, 2, 3, 4, 5, 6]"
  by (simp add: upt_rec)

lemma uuidv7_forward_fail:
  assumes "previous_timestamp st < now_ms tp" and "rng 10 = None"
  shows "uuidv7 st tp junk rng = (Inl ERRCODE_INTERNAL_ERROR, st)"
  using assms by (simp add: uuidv7_def UUID_LEN_def pg_strong_random_def)

lemma uuidv7_same_fail:
  assumes "\<not> previous_timestamp st < now_ms tp" and "rng 7 = None"
  shows "uuidv7 st tp junk rng = (Inl ERRCODE_INTERNAL_ERROR, increment_counter st)"
  using assms by (simp add: uuidv7_def UUID_LEN_def pg_strong_random_def Let_def)

lemma uuidv7_forward:
  assumes "previous_timestamp st < now_ms tp" and "rng 10 = Some bs"
  shows "uuidv7 st tp junk rng =
    (Inr (time_bytes (now_ms tp) @
          [bs 0 AND 7 OR 0x70, bs 1, bs 2 AND 0x3f OR 0x80,
           bs 3, bs 4, bs 5, bs 6, bs 7, bs 8, bs 9]),
     st\<lparr>sequence_counter := read_counter (bs 0 AND 0xf7) (bs 1) (bs 2),
        previous_timestamp := now_ms tp\<rparr>)"
  using assms
  by (simp add: uuidv7_def UUID_LEN_def palloc_def pg_strong_random_def upt_16 upt_10
      fill_time_part_def set_magic_numbers_def time_bytes_def Let_def and.assoc)

lemma uuidv7_same:
  assumes "\<not> previous_timestamp st < now_ms tp" and "rng 7 = Some bs"
  shows "uuidv7 st tp junk rng =
    (Inr (time_bytes (previous_timestamp (increment_counter st)) @
          [ucast (drop_bit 14 (sequence_counter (increment_counter st))) AND 0x0f OR 0x70,
           ucast (drop_bit 6 (sequence_counter (increment_counter st))),
           ucast (sequence_counter (increment_counter st)) AND 0x3f OR 0x80,
           bs 0, bs 1, bs 2, bs 3, bs 4, bs 5, bs 6]),
     increment_counter st)"
  using assms
  by (simp add: uuidv7_def UUID_LEN_def palloc_def pg_strong_random_def upt_16 upt_7
      fill_time_part_def set_magic_numbers_def write_counter_def time_bytes_def Let_def)

section \<open>Bytes and bit fields as numbers\<close>

lemma magic_version: "((x::u8) AND 0x0f OR 0x70) AND 0xF0 = 0x70"
  by (simp add: bit.conj_disj_distrib2 and.assoc)

lemma magic_version_7: "((x::u8) AND 7 OR 0x70) AND 0xF0 = 0x70"
  by (simp add: bit.conj_disj_distrib2 and.assoc)

lemma magic_variant: "((x::u8) AND 0x3f OR 0x80) AND 0xC0 = 0x80"
  by (simp add: bit.conj_disj_distrib2 and.assoc)

lemma read_counter_masks:
  "read_counter b6 b7 b8 = read_counter (b6 AND 0x0f) b7 (b8 AND 0x3f)"
  by (simp add: read_counter_def and.assoc unsigned_and_eq)

lemma read_counter_magic:
  "read_counter (b6 AND 0x0f OR 0x70) b7 (b8 AND 0x3f OR 0x80) = read_counter b6 b7 b8"
  by (simp add: read_counter_def bit.conj_disj_distrib2 and.assoc unsigned_and_eq unsigned_or_eq)

lemma read_counter_magic_7:
  "read_counter (b6 AND 7 OR 0x70) b7 (b8 AND 0x3f OR 0x80) = read_counter (b6 AND 0xf7) b7 b8"
  by (simp add: read_counter_def bit.conj_disj_distrib2 and.assoc unsigned_and_eq unsigned_or_eq)

lemma unat_ucast_u8: "unat (ucast (w::'a::len word) :: u8) = unat w mod 256"
  by (simp add: unsigned_ucast_eq take_bit_eq_mod)

lemma unat_drop_bit: "unat (drop_bit n (w::'a::len word)) = unat w div 2 ^ n"
  by (subst unat_drop_bit_eq) (simp add: drop_bit_eq_div)

lemma split_low_byte: "(x div 256 mod m) * 256 + x mod 256 = (x::nat) mod (m * 256)"
  by (metis mod_mult2_eq mult.commute)

lemma six_bytes_mod:
  "(T div 1099511627776 mod 256) * 1099511627776 + (T div 4294967296 mod 256) * 4294967296 +
   (T div 16777216 mod 256) * 16777216 + (T div 65536 mod 256) * 65536 +
   (T div 256 mod 256) * 256 + T mod 256 = (T::nat) mod 281474976710656"
proof -
  have 1: "T mod 281474976710656 = (T div 256 mod 1099511627776) * 256 + T mod 256"
    using split_low_byte [of T 1099511627776] by simp
  have 2: "T div 256 mod 1099511627776 = (T div 65536 mod 4294967296) * 256 + T div 256 mod 256"
    using split_low_byte [of "T div 256" 4294967296] by (simp add: div_mult2_eq [symmetric])
  have 3: "T div 65536 mod 4294967296 = (T div 16777216 mod 16777216) * 256 + T div 65536 mod 256"
    using split_low_byte [of "T div 65536" 16777216] by (simp add: div_mult2_eq [symmetric])
  have 4: "T div 16777216 mod 16777216 = (T div 4294967296 mod 65536) * 256 + T div 16777216 mod 256"
    using split_low_byte [of "T div 16777216" 65536] by (simp add: div_mult2_eq [symmetric])
  have 5: "T div 4294967296 mod 65536 = (T div 1099511627776 mod 256) * 256 + T div 4294967296 mod 256"
    using split_low_byte [of "T div 4294967296" 256] by (simp add: div_mult2_eq [symmetric])
  show ?thesis
    unfolding 1 2 3 4 5 by simp
qed

lemma be_nat_time_bytes: "be_nat (time_bytes tms) = unat tms mod 2 ^ 48"
  using six_bytes_mod [of "unat tms"]
  by (simp add: be_nat_def time_bytes_def unat_ucast_u8 unat_drop_bit)

lemma length_time_bytes: "length (time_bytes tms) = 6"
  by (simp add: time_bytes_def)

lemma decoded_timestamp_time_bytes:
  "decoded_timestamp (time_bytes tms @ rest) = unat tms mod 2 ^ 48"
  by (simp add: decoded_timestamp_def length_time_bytes be_nat_time_bytes)

lemma and_63: "(w::'a::len word) AND 63 = take_bit 6 w"
  by (simp add: take_bit_eq_mask mask_eq_exp_minus_1)

lemma and_15: "(w::'a::len word) AND 15 = take_bit 4 w"
  by (simp add: take_bit_eq_mask mask_eq_exp_minus_1)

lemma unat_ucast_u8_u32: "unat (ucast (b::u8) :: u32) = unat b"
proof -
  have "unat b < 2 ^ 32"
    using unsigned_less [of b, where 'a = nat] by simp
  then show ?thesis
    by (simp add: unsigned_ucast_eq take_bit_nat_eq_self)
qed

lemma unat_read_counter:
  "unat (read_counter b6 b7 b8) = unat b8 mod 64 + unat b7 * 64 + (unat b6 mod 16) * 16384"
proof -
  have b7: "unat b7 < 256" and b6: "unat b6 mod 16 < 16" and b8: "unat b8 mod 64 < 64"
    using unsigned_less [of b7, where 'a = nat] by simp_all
  have a: "unat (ucast b8 AND (0x3f::u32)) = unat b8 mod 64"
    unfolding and_63
    by (subst unsigned_take_bit_eq) (simp add: unat_ucast_u8_u32 take_bit_eq_mod)
  have b: "unat (push_bit 6 (ucast b7 :: u32)) = unat b7 * 64"
    using b7
    by (subst unsigned_push_bit_eq)
      (simp add: unat_ucast_u8_u32 push_bit_eq_mult take_bit_nat_eq_self)
  have c: "unat (push_bit 14 (ucast b6 AND (0x0f::u32))) = (unat b6 mod 16) * 16384"
    unfolding and_15 using b6
    by (subst unsigned_push_bit_eq, subst unsigned_take_bit_eq)
      (simp add: unat_ucast_u8_u32 push_bit_eq_mult take_bit_nat_eq_self take_bit_eq_mod)
  show ?thesis
    unfolding read_counter_def unat_word_ariths a b c using b6 b7 b8 by simp
qed

lemma counter_digits:
  "C mod 64 + (C div 64 mod 256) * 64 + (C div 16384) * 16384 = (C::nat)"
proof -
  have 2: "C div 64 = (C div 16384) * 256 + C div 64 mod 256"
    using div_mult_mod_eq [of "C div 64" 256] by (simp add: div_mult2_eq [symmetric])
  have 3: "C = (C div 64) * 64 + C mod 64"
    by simp
  show ?thesis
    using 2 3 by linarith
qed

lemma read_written_counter:
  assumes "sc \<le> 0x3ffff"
  shows "read_counter (ucast (drop_bit 14 sc)) (ucast (drop_bit 6 sc)) (ucast sc) = sc"
proof -
  have "unat sc < 262144"
    using assms by (simp add: word_le_nat_alt)
  then show ?thesis
    by (simp add: word_unat_eq_iff unat_read_counter unat_ucast_u8 unat_drop_bit counter_digits mod_mod_cancel)
qed

section \<open>The two branches\<close>

lemma increment_counter_range: "sequence_counter (increment_counter st) \<le> 0x3ffff"
  by (simp add: increment_counter_def Let_def not_less)

lemma increment_counter_no_overflow:
  "\<not> 0x3ffff < sequence_counter st + 1 \<Longrightarrow>
   increment_counter st = st\<lparr>sequence_counter := sequence_counter st + 1\<rparr>"
  by (simp add: increment_counter_def Let_def)

lemma increment_counter_overflow:
  "0x3ffff < sequence_counter st + 1 \<Longrightarrow>
   increment_counter st =
     st\<lparr>sequence_counter := 0, previous_timestamp := previous_timestamp st + 1\<rparr>"
  by (simp add: increment_counter_def Let_def)

lemma uuidv7_success_cases:
  assumes "uuidv7 st tp junk rng = (Inr uuid, st')"
  obtains (forward) bs where "previous_timestamp st < now_ms tp" and "rng 10 = Some bs"
    and "uuid = time_bytes (now_ms tp) @
          [bs 0 AND 7 OR 0x70, bs 1, bs 2 AND 0x3f OR 0x80,
           bs 3, bs 4, bs 5, bs 6, bs 7, bs 8, bs 9]"
    and "st' = st\<lparr>sequence_counter := read_counter (bs 0 AND 0xf7) (bs 1) (bs 2),
                  previous_timestamp := now_ms tp\<rparr>"
  | (same) bs where "\<not> previous_timestamp st < now_ms tp" and "rng 7 = Some bs"
    and "uuid = time_bytes (previous_timestamp st') @
          [ucast (drop_bit 14 (sequence_counter st')) AND 0x0f OR 0x70,
           ucast (drop_bit 6 (sequence_counter st')),
           ucast (sequence_counter st') AND 0x3f OR 0x80,
           bs 0, bs 1, bs 2, bs 3, bs 4, bs 5, bs 6]"
    and "st' = increment_counter st"
proof (cases "previous_timestamp st < now_ms tp")
  case True
  show ?thesis
  proof (cases "rng 10")
    case None
    with True assms show ?thesis
      by (simp add: uuidv7_forward_fail)
  next
    case (Some bs)
    from assms have "(Inr uuid, st') = uuidv7 st tp junk rng"
      by simp
    also have "\<dots> = (Inr (time_bytes (now_ms tp) @
          [bs 0 AND 7 OR 0x70, bs 1, bs 2 AND 0x3f OR 0x80,
           bs 3, bs 4, bs 5, bs 6, bs 7, bs 8, bs 9]),
        st\<lparr>sequence_counter := read_counter (bs 0 AND 0xf7) (bs 1) (bs 2),
           previous_timestamp := now_ms tp\<rparr>)"
      using True Some by (rule uuidv7_forward)
    finally show ?thesis
      using True Some by (intro forward [of bs]) simp_all
  qed
next
  case False
  show ?thesis
  proof (cases "rng 7")
    case None
    with False assms show ?thesis
      by (simp add: uuidv7_same_fail)
  next
    case (Some bs)
    from assms have "(Inr uuid, st') = uuidv7 st tp junk rng"
      by simp
    also have "\<dots> = (Inr (time_bytes (previous_timestamp (increment_counter st)) @
          [ucast (drop_bit 14 (sequence_counter (increment_counter st))) AND 0x0f OR 0x70,
           ucast (drop_bit 6 (sequence_counter (increment_counter st))),
           ucast (sequence_counter (increment_counter st)) AND 0x3f OR 0x80,
           bs 0, bs 1, bs 2, bs 3, bs 4, bs 5, bs 6]),
        increment_counter st)"
      using False Some by (rule uuidv7_same)
    finally have "uuid = time_bytes (previous_timestamp (increment_counter st)) @
          [ucast (drop_bit 14 (sequence_counter (increment_counter st))) AND 0x0f OR 0x70,
           ucast (drop_bit 6 (sequence_counter (increment_counter st))),
           ucast (sequence_counter (increment_counter st)) AND 0x3f OR 0x80,
           bs 0, bs 1, bs 2, bs 3, bs 4, bs 5, bs 6]"
      and st': "st' = increment_counter st"
      by simp_all
    then show ?thesis
      using False Some by (intro same [of bs]) simp_all
  qed
qed

lemma nth_time_bytes_append:
  "(time_bytes tms @ xs) ! 6 = xs ! 0"
  "(time_bytes tms @ xs) ! 7 = xs ! 1"
  "(time_bytes tms @ xs) ! 8 = xs ! 2"
  by (simp_all add: time_bytes_def)

lemma success_decoded_timestamp:
  assumes "uuidv7 st tp junk rng = (Inr uuid, st')"
  shows "decoded_timestamp uuid = unat (previous_timestamp st') mod 2 ^ 48"
  using assms
  by (cases rule: uuidv7_success_cases) (simp_all add: decoded_timestamp_time_bytes)

lemma success_decoded_counter:
  assumes "uuidv7 st tp junk rng = (Inr uuid, st')"
  shows "decoded_counter uuid = sequence_counter st'"
  using assms
proof (cases rule: uuidv7_success_cases)
  case (forward bs)
  then show ?thesis
    by (simp add: decoded_counter_def nth_time_bytes_append read_counter_magic_7)
next
  case (same bs)
  then have "sequence_counter st' \<le> 0x3ffff"
    by (simp add: increment_counter_range)
  then have "read_counter (ucast (drop_bit 14 (sequence_counter st')))
      (ucast (drop_bit 6 (sequence_counter st'))) (ucast (sequence_counter st'))
      = sequence_counter st'"
    by (rule read_written_counter)
  with same(3) show ?thesis
    by (simp add: decoded_counter_def nth_time_bytes_append read_counter_magic)
qed

lemma read_counter_range: "read_counter b6 b7 b8 \<le> 0x3ffff"
proof -
  have "unat b7 < 256" and "unat b6 mod 16 < 16" and "unat b8 mod 64 < 64"
    using unsigned_less [of b7, where 'a = nat] by simp_all
  then show ?thesis
    by (simp add: word_le_nat_alt unat_read_counter)
qed

lemma success_counter_range:
  assumes "uuidv7 st tp junk rng = (Inr uuid, st')"
  shows "sequence_counter st' \<le> 0x3ffff"
  using assms
  by (cases rule: uuidv7_success_cases)
    (simp_all add: read_counter_range increment_counter_range)

section \<open>Version, variant and the fields of an identifier\<close>

text \<open>
  C3. Every identifier a call returns carries the fixed tags, whatever the state, the
  clock and the random bytes were: the high nibble of byte 6 is \<open>0111\<close> and the top
  two bits of byte 8 are \<open>10\<close>.
\<close>

theorem version_variant_bits:
  assumes "uuidv7 st tp junk rng = (Inr uuid, st')"
  shows "uuid ! 6 AND 0xF0 = 0x70 \<and> uuid ! 8 AND 0xC0 = 0x80"
  using assms
  by (cases rule: uuidv7_success_cases)
    (simp_all add: nth_time_bytes_append magic_version magic_version_7 magic_variant)

theorem version_variant_bits_witness:
  "uuidv7 \<lparr>sequence_counter = 5, previous_timestamp = 1000\<rparr> \<lparr>tv_sec = 2, tv_usec = 0\<rparr>
      zero_heap (rng_const 0xAB)
    = (Inr [0, 0, 0, 0, 7, 208, 115, 171, 171, 171, 171, 171, 171, 171, 171, 171],
       \<lparr>sequence_counter = 60139, previous_timestamp = 2000\<rparr>)
   \<and> [0, 0, 0, 0, 7, 208, 115, 171, 171, 171, 171, 171, 171, 171, 171, 171 :: u8] ! 6 AND 0xF0 = 0x70
   \<and> [0, 0, 0, 0, 7, 208, 115, 171, 171, 171, 171, 171, 171, 171, 171, 171 :: u8] ! 8 AND 0xC0 = 0x80"
proof -
  have call: "uuidv7 \<lparr>sequence_counter = 5, previous_timestamp = 1000\<rparr>
      \<lparr>tv_sec = 2, tv_usec = 0\<rparr> zero_heap (rng_const 0xAB)
    = (Inr [0, 0, 0, 0, 7, 208, 115, 171, 171, 171, 171, 171, 171, 171, 171, 171],
       \<lparr>sequence_counter = 60139, previous_timestamp = 2000\<rparr>)"
    by (simp add: uuidv7_eval)
  show ?thesis
    using call version_variant_bits [OF call] by simp
qed

lemma set_magic_numbers_timestamp:
  "decoded_timestamp (set_magic_numbers data) = decoded_timestamp data"
  by (simp add: decoded_timestamp_def set_magic_numbers_def Let_def take_update_cancel)

lemma set_magic_numbers_counter:
  assumes "length data = UUID_LEN"
  shows "decoded_counter (set_magic_numbers data) = decoded_counter data"
  using assms
  by (simp add: decoded_counter_def set_magic_numbers_def Let_def UUID_LEN_def
      read_counter_magic)

text \<open>
  C9. After every call that returns, the identifier agrees with the static variables as
  the call leaves them, in both branches: its 48-bit timestamp is the new
  \<open>previous_timestamp\<close> modulo \<open>2^48\<close> and its 18-bit counter is the new
  \<open>sequence_counter\<close>. Setting version and variant changes neither field of a
  16-byte buffer.
\<close>

theorem identifier_in_sync_with_state:
  "(uuidv7 st tp junk rng = (Inr uuid, st') \<longrightarrow>
      decoded_timestamp uuid = unat (previous_timestamp st') mod 2 ^ 48 \<and>
      decoded_counter uuid = sequence_counter st') \<and>
   (length data = UUID_LEN \<longrightarrow>
      decoded_timestamp (set_magic_numbers data) = decoded_timestamp data \<and>
      decoded_counter (set_magic_numbers data) = decoded_counter data)"
  by (simp add: success_decoded_timestamp success_decoded_counter
      set_magic_numbers_timestamp set_magic_numbers_counter)

theorem identifier_in_sync_with_state_witness:
  "uuidv7 \<lparr>sequence_counter = 5, previous_timestamp = 1000\<rparr> \<lparr>tv_sec = 1, tv_usec = 0\<rparr>
      zero_heap (rng_const 0xAB)
    = (Inr [0, 0, 0, 0, 3, 232, 112, 0, 134, 171, 171, 171, 171, 171, 171, 171],
       \<lparr>sequence_counter = 6, previous_timestamp = 1000\<rparr>)
   \<and> decoded_timestamp [0, 0, 0, 0, 3, 232, 112, 0, 134, 171, 171, 171, 171, 171, 171, 171]
       = unat (1000 :: u64) mod 2 ^ 48
   \<and> decoded_counter [0, 0, 0, 0, 3, 232, 112, 0, 134, 171, 171, 171, 171, 171, 171, 171] = 6
   \<and> length [0, 0, 0, 0, 3, 232, 0xF5, 0, 6, 171, 171, 171, 171, 171, 171, 171 :: u8] = UUID_LEN
   \<and> decoded_timestamp
         (set_magic_numbers [0, 0, 0, 0, 3, 232, 0xF5, 0, 6, 171, 171, 171, 171, 171, 171, 171])
       = decoded_timestamp [0, 0, 0, 0, 3, 232, 0xF5, 0, 6, 171, 171, 171, 171, 171, 171, 171]
   \<and> decoded_counter
         (set_magic_numbers [0, 0, 0, 0, 3, 232, 0xF5, 0, 6, 171, 171, 171, 171, 171, 171, 171])
       = decoded_counter [0, 0, 0, 0, 3, 232, 0xF5, 0, 6, 171, 171, 171, 171, 171, 171, 171]"
proof -
  have call: "uuidv7 \<lparr>sequence_counter = 5, previous_timestamp = 1000\<rparr>
      \<lparr>tv_sec = 1, tv_usec = 0\<rparr> zero_heap (rng_const 0xAB)
    = (Inr [0, 0, 0, 0, 3, 232, 112, 0, 134, 171, 171, 171, 171, 171, 171, 171],
       \<lparr>sequence_counter = 6, previous_timestamp = 1000\<rparr>)"
    by (simp add: uuidv7_eval)
  have len: "length [0, 0, 0, 0, 3, 232, 0xF5, 0, 6, 171, 171, 171, 171, 171, 171, 171 :: u8]
      = UUID_LEN"
    by (simp add: UUID_LEN_def)
  show ?thesis
    using call len
      identifier_in_sync_with_state [of "\<lparr>sequence_counter = 5, previous_timestamp = 1000\<rparr>"
        "\<lparr>tv_sec = 1, tv_usec = 0\<rparr>" zero_heap "rng_const 0xAB"
        "[0, 0, 0, 0, 3, 232, 112, 0, 134, 171, 171, 171, 171, 171, 171, 171]"
        "\<lparr>sequence_counter = 6, previous_timestamp = 1000\<rparr>"
        "[0, 0, 0, 0, 3, 232, 0xF5, 0, 6, 171, 171, 171, 171, 171, 171, 171]"]
    by simp
qed

text \<open>
  C10. Bytes 0 to 5 receive the low 48 bits of \<open>tms\<close>, most significant byte first,
  for every value of \<open>tms\<close>, whether it is the clock reading or the stored timestamp
  after the counter step; higher bits are dropped. A call raises exactly when the
  random source refuses, so never because of the size of a timestamp.
\<close>

theorem timestamp_low_48_bits:
  "(uuidv7 st tp junk rng = (Inr uuid, st') \<and>
    tms = (if previous_timestamp st < now_ms tp then now_ms tp
           else previous_timestamp (increment_counter st)) \<longrightarrow>
      take 6 uuid =
        [ucast (drop_bit 40 tms), ucast (drop_bit 32 tms), ucast (drop_bit 24 tms),
         ucast (drop_bit 16 tms), ucast (drop_bit 8 tms), ucast tms] \<and>
      decoded_timestamp uuid = unat tms mod 2 ^ 48) \<and>
   (fst (uuidv7 st tp junk rng) = Inl ERRCODE_INTERNAL_ERROR \<longleftrightarrow>
      rng (if previous_timestamp st < now_ms tp then 10 else 7) = None)"
proof (intro conjI impI)
  assume a: "uuidv7 st tp junk rng = (Inr uuid, st') \<and>
    tms = (if previous_timestamp st < now_ms tp then now_ms tp
           else previous_timestamp (increment_counter st))"
  then have call: "uuidv7 st tp junk rng = (Inr uuid, st')"
    by simp
  from call have "uuid = time_bytes tms @ drop 6 uuid"
    using a by (cases rule: uuidv7_success_cases) (simp_all add: length_time_bytes)
  then have "take 6 uuid = time_bytes tms"
    by (metis append_eq_conv_conj length_time_bytes)
  then show "take 6 uuid =
        [ucast (drop_bit 40 tms), ucast (drop_bit 32 tms), ucast (drop_bit 24 tms),
         ucast (drop_bit 16 tms), ucast (drop_bit 8 tms), ucast tms]"
    by (simp add: time_bytes_def)
  from call have "previous_timestamp st' = tms"
    using a by (cases rule: uuidv7_success_cases) simp_all
  with call show "decoded_timestamp uuid = unat tms mod 2 ^ 48"
    by (simp add: success_decoded_timestamp)
next
  show "fst (uuidv7 st tp junk rng) = Inl ERRCODE_INTERNAL_ERROR \<longleftrightarrow>
      rng (if previous_timestamp st < now_ms tp then 10 else 7) = None"
  proof (cases "previous_timestamp st < now_ms tp")
    case True
    then show ?thesis
      by (cases "rng 10") (simp_all add: uuidv7_forward_fail uuidv7_forward)
  next
    case False
    then show ?thesis
      by (cases "rng 7") (simp_all add: uuidv7_same_fail uuidv7_same)
  qed
qed

theorem timestamp_low_48_bits_witness:
  "uuidv7 \<lparr>sequence_counter = 0, previous_timestamp = 281474976710661\<rparr>
      \<lparr>tv_sec = 0, tv_usec = 5000\<rparr> zero_heap (rng_const 0xAB)
    = (Inr [0, 0, 0, 0, 0, 5, 112, 0, 129, 171, 171, 171, 171, 171, 171, 171],
       \<lparr>sequence_counter = 1, previous_timestamp = 281474976710661\<rparr>)
   \<and> take 6 [0, 0, 0, 0, 0, 5, 112, 0, 129, 171, 171, 171, 171, 171, 171, 171 :: u8]
       = [0, 0, 0, 0, 0, 5]
   \<and> decoded_timestamp [0, 0, 0, 0, 0, 5, 112, 0, 129, 171, 171, 171, 171, 171, 171, 171]
       = 281474976710661 mod 2 ^ 48
   \<and> fst (uuidv7 \<lparr>sequence_counter = 0, previous_timestamp = 281474976710661\<rparr>
      \<lparr>tv_sec = 0, tv_usec = 5000\<rparr> zero_heap (rng_const 0xAB)) \<noteq> Inl ERRCODE_INTERNAL_ERROR"
proof -
  have call: "uuidv7 \<lparr>sequence_counter = 0, previous_timestamp = 281474976710661\<rparr>
      \<lparr>tv_sec = 0, tv_usec = 5000\<rparr> zero_heap (rng_const 0xAB)
    = (Inr [0, 0, 0, 0, 0, 5, 112, 0, 129, 171, 171, 171, 171, 171, 171, 171],
       \<lparr>sequence_counter = 1, previous_timestamp = 281474976710661\<rparr>)"
    by (simp add: uuidv7_eval)
  have tms: "(281474976710661 :: u64) =
      (if previous_timestamp \<lparr>sequence_counter = 0, previous_timestamp = 281474976710661\<rparr>
          < now_ms \<lparr>tv_sec = 0, tv_usec = 5000\<rparr>
       then now_ms \<lparr>tv_sec = 0, tv_usec = 5000\<rparr>
       else previous_timestamp
         (increment_counter \<lparr>sequence_counter = 0, previous_timestamp = 281474976710661\<rparr>))"
    by (simp add: now_ms_def signed_divide_int_def increment_counter_def Let_def)
  show ?thesis
    using call tms
      timestamp_low_48_bits [of "\<lparr>sequence_counter = 0, previous_timestamp = 281474976710661\<rparr>"
        "\<lparr>tv_sec = 0, tv_usec = 5000\<rparr>" zero_heap "rng_const 0xAB"
        "[0, 0, 0, 0, 0, 5, 112, 0, 129, 171, 171, 171, 171, 171, 171, 171]"
        "\<lparr>sequence_counter = 1, previous_timestamp = 281474976710661\<rparr>"
        281474976710661]
    by simp
qed

section \<open>Failed calls, clock regression and counter overflow\<close>

lemma unat_succ_mod_48: "unat ((t::u64) + 1) mod 2 ^ 48 = (unat t + 1) mod 2 ^ 48"
proof -
  have "unat (t + 1) = (unat t + 1) mod 2 ^ 64"
    by (simp add: unat_word_ariths)
  moreover have "(2::nat) ^ 48 dvd 2 ^ 64"
    by (simp add: le_imp_power_dvd)
  ultimately show ?thesis
    by (simp only: mod_mod_cancel)
qed

lemma same_tick_state:
  assumes "\<not> previous_timestamp st < now_ms tp"
  shows "snd (uuidv7 st tp junk rng) = increment_counter st"
  using assms by (cases "rng 7") (simp_all add: uuidv7_same_fail uuidv7_same)

lemma same_tick_timestamp:
  assumes "now_ms tp \<le> previous_timestamp st" and "uuidv7 st tp junk rng = (Inr uuid, st')"
  shows "decoded_timestamp uuid =
    (if 0x3ffff < sequence_counter st + 1 then unat (previous_timestamp st) + 1
     else unat (previous_timestamp st)) mod 2 ^ 48"
proof -
  from assms(1) have same: "\<not> previous_timestamp st < now_ms tp"
    by simp
  from same_tick_state [OF same, of junk rng] assms(2) have "st' = increment_counter st"
    by simp
  then have "unat (previous_timestamp st') mod 2 ^ 48 =
    (if 0x3ffff < sequence_counter st + 1 then unat (previous_timestamp st) + 1
     else unat (previous_timestamp st)) mod 2 ^ 48"
    using unat_succ_mod_48 [of "previous_timestamp st"]
    by (simp add: increment_counter_def Let_def)
  with assms(2) show ?thesis
    by (simp only: success_decoded_timestamp)
qed

text \<open>
  C1, as the code has it. When the random source refuses, the call raises. In the branch
  where the clock moved forward the static variables are as before the call. In the
  other branch the counter step of lines 107 to 113 was taken before the request and
  stays: \<open>sequence_counter\<close> is one more, or 0 with \<open>previous_timestamp\<close> one more
  when it passed 262143.
\<close>

theorem failed_call_state:
  assumes "rng (if previous_timestamp st < now_ms tp then 10 else 7) = None"
  shows "uuidv7 st tp junk rng =
      (Inl ERRCODE_INTERNAL_ERROR,
       if previous_timestamp st < now_ms tp then st
       else if 0x3ffff < sequence_counter st + 1
         then st\<lparr>sequence_counter := 0, previous_timestamp := previous_timestamp st + 1\<rparr>
         else st\<lparr>sequence_counter := sequence_counter st + 1\<rparr>)"
  using assms
  by (simp add: uuidv7_forward_fail uuidv7_same_fail increment_counter_def Let_def
      split: if_splits)

theorem failed_call_state_witness:
  "rng_fail (if previous_timestamp \<lparr>sequence_counter = 5, previous_timestamp = 1000\<rparr>
               < now_ms \<lparr>tv_sec = 2, tv_usec = 0\<rparr> then 10 else 7) = None
   \<and> uuidv7 \<lparr>sequence_counter = 5, previous_timestamp = 1000\<rparr> \<lparr>tv_sec = 2, tv_usec = 0\<rparr>
        zero_heap rng_fail
      = (Inl ERRCODE_INTERNAL_ERROR, \<lparr>sequence_counter = 5, previous_timestamp = 1000\<rparr>)"
proof -
  have refuse: "rng_fail (if previous_timestamp \<lparr>sequence_counter = 5, previous_timestamp = 1000\<rparr>
               < now_ms \<lparr>tv_sec = 2, tv_usec = 0\<rparr> then 10 else 7) = None"
    by (simp add: rng_fail_def)
  show ?thesis
    using refuse
      failed_call_state [of rng_fail "\<lparr>sequence_counter = 5, previous_timestamp = 1000\<rparr>"
        "\<lparr>tv_sec = 2, tv_usec = 0\<rparr>" zero_heap]
    by (simp add: now_ms_def signed_divide_int_def)
qed

text \<open>
  C1, as stated, fails in the branch where the clock did not move forward: from
  \<open>sequence_counter = 5\<close> at the stored millisecond 1000, a call at clock 1000 whose
  random request is refused raises and leaves \<open>sequence_counter = 6\<close>.
\<close>

theorem failed_call_changes_counter:
  "fst (uuidv7 \<lparr>sequence_counter = 5, previous_timestamp = 1000\<rparr> \<lparr>tv_sec = 1, tv_usec = 0\<rparr>
        zero_heap rng_fail) = Inl ERRCODE_INTERNAL_ERROR
   \<and> sequence_counter (snd (uuidv7 \<lparr>sequence_counter = 5, previous_timestamp = 1000\<rparr>
        \<lparr>tv_sec = 1, tv_usec = 0\<rparr> zero_heap rng_fail)) = 6
   \<and> sequence_counter (snd (uuidv7 \<lparr>sequence_counter = 5, previous_timestamp = 1000\<rparr>
        \<lparr>tv_sec = 1, tv_usec = 0\<rparr> zero_heap rng_fail))
      \<noteq> sequence_counter \<lparr>sequence_counter = 5, previous_timestamp = 1000\<rparr>"
  by (simp add: uuidv7_eval)

text \<open>
  C4, as the code has it. When the clock reading is not above \<open>previous_timestamp\<close>,
  the timestamp field of the identifier is \<open>previous_timestamp\<close> modulo \<open>2^48\<close>, or
  \<open>previous_timestamp + 1\<close> modulo \<open>2^48\<close> when the counter step passes 262143. Below
  \<open>2^48\<close> that is the stored value itself or its successor, and never less than the
  clock reading.
\<close>

theorem clock_regression_resistance:
  assumes "now_ms tp \<le> previous_timestamp st" and "uuidv7 st tp junk rng = (Inr uuid, st')"
  shows "decoded_timestamp uuid =
      (if 0x3ffff < sequence_counter st + 1 then unat (previous_timestamp st) + 1
       else unat (previous_timestamp st)) mod 2 ^ 48
    \<and> (unat (previous_timestamp st) + 1 < 2 ^ 48 \<longrightarrow>
         decoded_timestamp uuid =
           (if 0x3ffff < sequence_counter st + 1 then unat (previous_timestamp st) + 1
            else unat (previous_timestamp st))
         \<and> unat (now_ms tp) \<le> decoded_timestamp uuid)"
proof -
  have le: "unat (now_ms tp) \<le> unat (previous_timestamp st)"
    using assms(1) by (simp add: word_le_nat_alt)
  show ?thesis
    using le by (simp add: same_tick_timestamp [OF assms])
qed

theorem clock_regression_resistance_witness:
  "now_ms \<lparr>tv_sec = 0, tv_usec = 999000\<rparr>
     \<le> previous_timestamp \<lparr>sequence_counter = 5, previous_timestamp = 1000\<rparr>
   \<and> uuidv7 \<lparr>sequence_counter = 5, previous_timestamp = 1000\<rparr> \<lparr>tv_sec = 0, tv_usec = 999000\<rparr>
        zero_heap (rng_const 0xAB)
      = (Inr [0, 0, 0, 0, 3, 232, 112, 0, 134, 171, 171, 171, 171, 171, 171, 171],
         \<lparr>sequence_counter = 6, previous_timestamp = 1000\<rparr>)
   \<and> decoded_timestamp [0, 0, 0, 0, 3, 232, 112, 0, 134, 171, 171, 171, 171, 171, 171, 171]
      = 1000
   \<and> unat (now_ms \<lparr>tv_sec = 0, tv_usec = 999000\<rparr>)
      \<le> decoded_timestamp [0, 0, 0, 0, 3, 232, 112, 0, 134, 171, 171, 171, 171, 171, 171, 171]"
proof -
  have clock: "now_ms \<lparr>tv_sec = 0, tv_usec = 999000\<rparr>
     \<le> previous_timestamp \<lparr>sequence_counter = 5, previous_timestamp = 1000\<rparr>"
    by (simp add: now_ms_def signed_divide_int_def)
  have call: "uuidv7 \<lparr>sequence_counter = 5, previous_timestamp = 1000\<rparr>
        \<lparr>tv_sec = 0, tv_usec = 999000\<rparr> zero_heap (rng_const 0xAB)
      = (Inr [0, 0, 0, 0, 3, 232, 112, 0, 134, 171, 171, 171, 171, 171, 171, 171],
         \<lparr>sequence_counter = 6, previous_timestamp = 1000\<rparr>)"
    by (simp add: uuidv7_eval)
  show ?thesis
    using clock call clock_regression_resistance [OF clock call]
    by simp
qed

text \<open>
  C4, as stated, fails once the stored timestamp has left the 48-bit range: with
  \<open>previous_timestamp = 2^48 + 5\<close> and the clock at 5 ms, the timestamp field is 5,
  which is the smaller clock value and neither the stored value nor its successor.
\<close>

theorem timestamp_field_shows_clock_value:
  "now_ms \<lparr>tv_sec = 0, tv_usec = 5000\<rparr>
     \<le> previous_timestamp \<lparr>sequence_counter = 0, previous_timestamp = 281474976710661\<rparr>
   \<and> uuidv7 \<lparr>sequence_counter = 0, previous_timestamp = 281474976710661\<rparr>
        \<lparr>tv_sec = 0, tv_usec = 5000\<rparr> zero_heap (rng_const 0xAB)
      = (Inr [0, 0, 0, 0, 0, 5, 112, 0, 129, 171, 171, 171, 171, 171, 171, 171],
         \<lparr>sequence_counter = 1, previous_timestamp = 281474976710661\<rparr>)
   \<and> decoded_timestamp [0, 0, 0, 0, 0, 5, 112, 0, 129, 171, 171, 171, 171, 171, 171, 171]
      = unat (now_ms \<lparr>tv_sec = 0, tv_usec = 5000\<rparr>)
   \<and> decoded_timestamp [0, 0, 0, 0, 0, 5, 112, 0, 129, 171, 171, 171, 171, 171, 171, 171]
      \<noteq> unat (previous_timestamp \<lparr>sequence_counter = 0, previous_timestamp = 281474976710661\<rparr>)
   \<and> decoded_timestamp [0, 0, 0, 0, 0, 5, 112, 0, 129, 171, 171, 171, 171, 171, 171, 171]
      \<noteq> unat (previous_timestamp \<lparr>sequence_counter = 0, previous_timestamp = 281474976710661\<rparr>) + 1"
  by (simp add: uuidv7_eval decoded_timestamp_def be_nat_def)

lemma uuidv7_counter_range:
  assumes "sequence_counter st \<le> 0x3ffff"
  shows "sequence_counter (snd (uuidv7 st tp junk rng)) \<le> 0x3ffff"
proof (cases "previous_timestamp st < now_ms tp")
  case True
  with assms show ?thesis
    by (cases "rng 10") (simp_all add: uuidv7_forward_fail uuidv7_forward read_counter_range)
next
  case False
  then show ?thesis
    by (simp add: same_tick_state increment_counter_range)
qed

text \<open>
  C5, as the code has it. A call that starts with \<open>sequence_counter = 262143\<close> and a
  clock reading not above \<open>previous_timestamp\<close> returns an identifier with counter 0
  and timestamp field \<open>previous_timestamp + 1\<close> modulo \<open>2^48\<close> (which is
  \<open>previous_timestamp + 1\<close> itself below \<open>2^48\<close>), whatever the clock says, and
  commits counter 0 and the incremented timestamp. A call never takes
  \<open>sequence_counter\<close> out of the range 0 to 262143.
\<close>

theorem counter_overflow_step:
  "(sequence_counter st = 0x3ffff \<and> now_ms tp \<le> previous_timestamp st \<and>
    uuidv7 st tp junk rng = (Inr uuid, st') \<longrightarrow>
      decoded_counter uuid = 0 \<and>
      decoded_timestamp uuid = (unat (previous_timestamp st) + 1) mod 2 ^ 48 \<and>
      (unat (previous_timestamp st) + 1 < 2 ^ 48 \<longrightarrow>
         decoded_timestamp uuid = unat (previous_timestamp st) + 1) \<and>
      sequence_counter st' = 0 \<and>
      previous_timestamp st' = previous_timestamp st + 1) \<and>
   (sequence_counter st \<le> 0x3ffff \<longrightarrow>
      sequence_counter (snd (uuidv7 st tp junk rng)) \<le> 0x3ffff)"
proof (intro conjI impI)
  assume a: "sequence_counter st = 0x3ffff \<and> now_ms tp \<le> previous_timestamp st \<and>
    uuidv7 st tp junk rng = (Inr uuid, st')"
  then have max: "sequence_counter st = 0x3ffff"
    and clock: "now_ms tp \<le> previous_timestamp st"
    and call: "uuidv7 st tp junk rng = (Inr uuid, st')"
    by simp_all
  from clock have "\<not> previous_timestamp st < now_ms tp"
    by simp
  from same_tick_state [OF this, of junk rng] call have "st' = increment_counter st"
    by simp
  with max show sc: "sequence_counter st' = 0"
    and "previous_timestamp st' = previous_timestamp st + 1"
    by (simp_all add: increment_counter_def Let_def)
  from call sc show "decoded_counter uuid = 0"
    by (simp add: success_decoded_counter)
  from max show ts: "decoded_timestamp uuid = (unat (previous_timestamp st) + 1) mod 2 ^ 48"
    by (simp add: same_tick_timestamp [OF clock call])
  assume "unat (previous_timestamp st) + 1 < 2 ^ 48"
  with ts show "decoded_timestamp uuid = unat (previous_timestamp st) + 1"
    by simp
next
  assume "sequence_counter st \<le> 0x3ffff"
  then show "sequence_counter (snd (uuidv7 st tp junk rng)) \<le> 0x3ffff"
    by (rule uuidv7_counter_range)
qed

theorem counter_overflow_step_witness:
  "sequence_counter \<lparr>sequence_counter = 0x3ffff, previous_timestamp = 1000\<rparr> = 0x3ffff
   \<and> now_ms \<lparr>tv_sec = 0, tv_usec = 999000\<rparr>
       \<le> previous_timestamp \<lparr>sequence_counter = 0x3ffff, previous_timestamp = 1000\<rparr>
   \<and> uuidv7 \<lparr>sequence_counter = 0x3ffff, previous_timestamp = 1000\<rparr>
        \<lparr>tv_sec = 0, tv_usec = 999000\<rparr> zero_heap (rng_const 0xAB)
      = (Inr [0, 0, 0, 0, 3, 233, 112, 0, 128, 171, 171, 171, 171, 171, 171, 171],
         \<lparr>sequence_counter = 0, previous_timestamp = 1001\<rparr>)
   \<and> decoded_counter [0, 0, 0, 0, 3, 233, 112, 0, 128, 171, 171, 171, 171, 171, 171, 171] = 0
   \<and> decoded_timestamp [0, 0, 0, 0, 3, 233, 112, 0, 128, 171, 171, 171, 171, 171, 171, 171]
       = 1001
   \<and> sequence_counter (snd (uuidv7 \<lparr>sequence_counter = 0x3ffff, previous_timestamp = 1000\<rparr>
        \<lparr>tv_sec = 0, tv_usec = 999000\<rparr> zero_heap (rng_const 0xAB))) \<le> 0x3ffff"
proof -
  have call: "uuidv7 \<lparr>sequence_counter = 0x3ffff, previous_timestamp = 1000\<rparr>
        \<lparr>tv_sec = 0, tv_usec = 999000\<rparr> zero_heap (rng_const 0xAB)
      = (Inr [0, 0, 0, 0, 3, 233, 112, 0, 128, 171, 171, 171, 171, 171, 171, 171],
         \<lparr>sequence_counter = 0, previous_timestamp = 1001\<rparr>)"
    by (simp add: uuidv7_eval)
  have clock: "now_ms \<lparr>tv_sec = 0, tv_usec = 999000\<rparr>
       \<le> previous_timestamp \<lparr>sequence_counter = 0x3ffff, previous_timestamp = 1000\<rparr>"
    by (simp add: now_ms_def signed_divide_int_def)
  show ?thesis
    using call clock
      counter_overflow_step [of "\<lparr>sequence_counter = 0x3ffff, previous_timestamp = 1000\<rparr>"
        "\<lparr>tv_sec = 0, tv_usec = 999000\<rparr>" zero_heap "rng_const 0xAB"
        "[0, 0, 0, 0, 3, 233, 112, 0, 128, 171, 171, 171, 171, 171, 171, 171]"
        "\<lparr>sequence_counter = 0, previous_timestamp = 1001\<rparr>"]
    by simp
qed

text \<open>
  C5, as stated, fails at the end of the 48-bit range: from \<open>sequence_counter = 262143\<close>
  and \<open>previous_timestamp = 2^48 - 1\<close> the identifier has timestamp field 0, not
  \<open>previous_timestamp + 1 = 2^48\<close>.
\<close>

theorem overflow_timestamp_wraps:
  "sequence_counter \<lparr>sequence_counter = 262143, previous_timestamp = 281474976710655\<rparr> = 262143
   \<and> now_ms \<lparr>tv_sec = 0, tv_usec = 0\<rparr>
       \<le> previous_timestamp \<lparr>sequence_counter = 262143, previous_timestamp = 281474976710655\<rparr>
   \<and> uuidv7 \<lparr>sequence_counter = 262143, previous_timestamp = 281474976710655\<rparr>
        \<lparr>tv_sec = 0, tv_usec = 0\<rparr> zero_heap (rng_const 0xAB)
      = (Inr [0, 0, 0, 0, 0, 0, 112, 0, 128, 171, 171, 171, 171, 171, 171, 171],
         \<lparr>sequence_counter = 0, previous_timestamp = 281474976710656\<rparr>)
   \<and> decoded_timestamp [0, 0, 0, 0, 0, 0, 112, 0, 128, 171, 171, 171, 171, 171, 171, 171] = 0
   \<and> decoded_timestamp [0, 0, 0, 0, 0, 0, 112, 0, 128, 171, 171, 171, 171, 171, 171, 171]
       \<noteq> unat (previous_timestamp
                \<lparr>sequence_counter = 262143, previous_timestamp = 281474976710655\<rparr>) + 1"
  by (simp add: uuidv7_eval decoded_timestamp_def be_nat_def)

section \<open>Counter layout and the scope of the random bytes\<close>

lemma write_counter_bytes:
  assumes "length data = UUID_LEN"
  shows "write_counter data sc ! 6 = ucast (drop_bit 14 sc)"
    and "write_counter data sc ! 7 = ucast (drop_bit 6 sc)"
    and "write_counter data sc ! 8 = ucast sc"
  using assms by (simp_all add: write_counter_def UUID_LEN_def)

lemma forward_state:
  assumes "previous_timestamp st < now_ms tp" and "rng 10 = Some bs"
  shows "snd (uuidv7 st tp junk rng) =
    st\<lparr>sequence_counter := read_counter (bs 0 AND 0xf7) (bs 1) (bs 2),
       previous_timestamp := now_ms tp\<rparr>"
  using assms by (simp add: uuidv7_forward)

text \<open>
  C8, as the code has it. Reading the counter uses the low nibble of byte 6, all of
  byte 7 and the low 6 bits of byte 8 (the top 2 bits of byte 8 are the variant and are
  not read): the value is \<open>(byte 6 mod 16) * 2^14 + byte 7 * 2^6 + byte 8 mod 64\<close>.
  On a call where the clock moved forward the new \<open>sequence_counter\<close> is that
  reading of the random bytes after bit 3 of byte 6 was cleared. Writing puts the
  counter shifted by 14 into byte 6, shifted by 6 into byte 7 and unshifted into byte 8,
  each cut to 8 bits, and for every counter up to 262143 reading the written bytes
  gives the counter back.
\<close>

theorem counter_layout_roundtrip:
  "read_counter hi mid lo = read_counter (hi AND 0x0f) mid (lo AND 0x3f) \<and>
   unat (read_counter hi mid lo) = (unat hi mod 16) * 2 ^ 14 + unat mid * 2 ^ 6 + unat lo mod 64 \<and>
   (previous_timestamp st < now_ms tp \<and> rng 10 = Some bs \<longrightarrow>
      sequence_counter (snd (uuidv7 st tp junk rng)) =
        read_counter (bs 0 AND 0xf7) (bs 1) (bs 2)) \<and>
   (sc \<le> 0x3ffff \<and> length data = UUID_LEN \<longrightarrow>
      unat (write_counter data sc ! 6) = unat sc div 2 ^ 14 \<and>
      unat (write_counter data sc ! 7) = unat sc div 2 ^ 6 mod 2 ^ 8 \<and>
      unat (write_counter data sc ! 8) mod 2 ^ 6 = unat sc mod 2 ^ 6 \<and>
      read_counter (write_counter data sc ! 6) (write_counter data sc ! 7)
        (write_counter data sc ! 8) = sc)"
proof (intro conjI impI)
  show "read_counter hi mid lo = read_counter (hi AND 0x0f) mid (lo AND 0x3f)"
    by (rule read_counter_masks)
  show "unat (read_counter hi mid lo) =
      (unat hi mod 16) * 2 ^ 14 + unat mid * 2 ^ 6 + unat lo mod 64"
    by (simp add: unat_read_counter)
next
  assume "previous_timestamp st < now_ms tp \<and> rng 10 = Some bs"
  then show "sequence_counter (snd (uuidv7 st tp junk rng)) =
      read_counter (bs 0 AND 0xf7) (bs 1) (bs 2)"
    by (simp add: forward_state)
next
  assume a: "sc \<le> 0x3ffff \<and> length data = UUID_LEN"
  then have small: "unat sc < 262144"
    by (simp add: word_le_nat_alt)
  from a show "read_counter (write_counter data sc ! 6) (write_counter data sc ! 7)
        (write_counter data sc ! 8) = sc"
    by (simp add: write_counter_bytes read_written_counter)
  from a small show "unat (write_counter data sc ! 6) = unat sc div 2 ^ 14"
    by (simp add: write_counter_bytes unat_ucast_u8 unat_drop_bit)
  from a show "unat (write_counter data sc ! 7) = unat sc div 2 ^ 6 mod 2 ^ 8"
    by (simp add: write_counter_bytes unat_ucast_u8 unat_drop_bit)
  from a show "unat (write_counter data sc ! 8) mod 2 ^ 6 = unat sc mod 2 ^ 6"
    by (simp add: write_counter_bytes unat_ucast_u8 mod_mod_cancel)
qed

theorem counter_layout_roundtrip_witness:
  "previous_timestamp \<lparr>sequence_counter = 5, previous_timestamp = 1000\<rparr>
      < now_ms \<lparr>tv_sec = 2, tv_usec = 0\<rparr>
   \<and> rng_const 0xAB 10 = Some (\<lambda>i. 0xAB)
   \<and> sequence_counter (snd (uuidv7 \<lparr>sequence_counter = 5, previous_timestamp = 1000\<rparr>
        \<lparr>tv_sec = 2, tv_usec = 0\<rparr> zero_heap (rng_const 0xAB)))
      = read_counter (0xAB AND 0xf7) 0xAB 0xAB
   \<and> (0x2ABCD :: u32) \<le> 0x3ffff
   \<and> length (replicate 16 (0xEE :: u8)) = UUID_LEN
   \<and> read_counter (write_counter (replicate 16 0xEE) 0x2ABCD ! 6)
        (write_counter (replicate 16 0xEE) 0x2ABCD ! 7)
        (write_counter (replicate 16 0xEE) 0x2ABCD ! 8) = 0x2ABCD"
proof -
  have forward: "previous_timestamp \<lparr>sequence_counter = 5, previous_timestamp = 1000\<rparr>
      < now_ms \<lparr>tv_sec = 2, tv_usec = 0\<rparr>"
    by (simp add: now_ms_def signed_divide_int_def)
  have random: "rng_const 0xAB 10 = Some (\<lambda>i. 0xAB)"
    by (simp add: rng_const_def)
  have range: "(0x2ABCD :: u32) \<le> 0x3ffff"
    by simp
  have len: "length (replicate 16 (0xEE :: u8)) = UUID_LEN"
    by (simp add: UUID_LEN_def)
  show ?thesis
    using forward random range len
      counter_layout_roundtrip [where hi = "0xAB" and mid = "0xAB" and lo = "0xAB"
        and st = "\<lparr>sequence_counter = 5, previous_timestamp = 1000\<rparr>"
        and tp = "\<lparr>tv_sec = 2, tv_usec = 0\<rparr>" and rng = "rng_const 0xAB"
        and bs = "\<lambda>i. 0xAB" and junk = zero_heap and sc = "0x2ABCD"
        and data = "replicate 16 0xEE"]
    by (simp add: UUID_LEN_def)
qed

text \<open>
  C8, as stated, names the top 2 bits of byte 8 as the part of that byte the counter is
  read from. Two values of byte 8 with the same top 2 bits give different counters, and
  changing only the top 2 bits changes nothing.
\<close>

theorem counter_not_read_from_top_bits:
  "(0x01 :: u8) AND 0xC0 = 0x00 AND 0xC0
   \<and> read_counter 0 0 0x01 \<noteq> read_counter 0 0 0x00
   \<and> (0xC0 :: u8) AND 0xC0 \<noteq> 0x00 AND 0xC0
   \<and> read_counter 0 0 0xC0 = read_counter 0 0 0x00"
  by (simp add: read_counter_def)

text \<open>
  C7. The request for random bytes and where they land. When the clock moved forward
  the function asks for exactly 10 bytes and they replace bytes 6 to 15 of the fresh
  memory, bytes 0 to 5 keeping what the memory held; in the identifier bytes 0 to 5 are
  the time part. Otherwise it asks for exactly 7 bytes and they replace bytes 9 to 15,
  bytes 0 to 8 keeping what the memory held; in the identifier bytes 0 to 5 are the time
  part and bytes 6 to 8 come from the counter alone.
\<close>

theorem random_fill_scope:
  "pg_strong_random rng (palloc junk UUID_LEN) 6 (UUID_LEN - 6) =
     map_option (\<lambda>bs. map junk [0..<6] @ map bs [0..<10]) (rng 10) \<and>
   pg_strong_random rng (palloc junk UUID_LEN) 9 (UUID_LEN - 9) =
     map_option (\<lambda>bs. map junk [0..<9] @ map bs [0..<7]) (rng 7) \<and>
   uuidv7 st tp junk rng =
     (if previous_timestamp st < now_ms tp then
        case rng 10 of
          None \<Rightarrow> (Inl ERRCODE_INTERNAL_ERROR, st)
        | Some bs \<Rightarrow>
            (Inr (time_bytes (now_ms tp) @
                  [bs 0 AND 7 OR 0x70, bs 1, bs 2 AND 0x3f OR 0x80] @ map bs [3..<10]),
             st\<lparr>sequence_counter := read_counter (bs 0 AND 0xf7) (bs 1) (bs 2),
                previous_timestamp := now_ms tp\<rparr>)
      else
        case rng 7 of
          None \<Rightarrow> (Inl ERRCODE_INTERNAL_ERROR, increment_counter st)
        | Some bs \<Rightarrow>
            (Inr (time_bytes (previous_timestamp (increment_counter st)) @
                  [ucast (drop_bit 14 (sequence_counter (increment_counter st))) AND 0x0f OR 0x70,
                   ucast (drop_bit 6 (sequence_counter (increment_counter st))),
                   ucast (sequence_counter (increment_counter st)) AND 0x3f OR 0x80] @
                  map bs [0..<7]),
             increment_counter st))"
proof (intro conjI)
  show "pg_strong_random rng (palloc junk UUID_LEN) 6 (UUID_LEN - 6) =
     map_option (\<lambda>bs. map junk [0..<6] @ map bs [0..<10]) (rng 10)"
    by (cases "rng 10")
      (simp_all add: pg_strong_random_def palloc_def UUID_LEN_def take_map)
  show "pg_strong_random rng (palloc junk UUID_LEN) 9 (UUID_LEN - 9) =
     map_option (\<lambda>bs. map junk [0..<9] @ map bs [0..<7]) (rng 7)"
    by (cases "rng 7")
      (simp_all add: pg_strong_random_def palloc_def UUID_LEN_def take_map)
  have upt_3_10: "[3..<10] = [3, 4, 5, 6, 7, 8, 9]"
    by (simp add: upt_rec)
  show "uuidv7 st tp junk rng =
     (if previous_timestamp st < now_ms tp then
        case rng 10 of
          None \<Rightarrow> (Inl ERRCODE_INTERNAL_ERROR, st)
        | Some bs \<Rightarrow>
            (Inr (time_bytes (now_ms tp) @
                  [bs 0 AND 7 OR 0x70, bs 1, bs 2 AND 0x3f OR 0x80] @ map bs [3..<10]),
             st\<lparr>sequence_counter := read_counter (bs 0 AND 0xf7) (bs 1) (bs 2),
                previous_timestamp := now_ms tp\<rparr>)
      else
        case rng 7 of
          None \<Rightarrow> (Inl ERRCODE_INTERNAL_ERROR, increment_counter st)
        | Some bs \<Rightarrow>
            (Inr (time_bytes (previous_timestamp (increment_counter st)) @
                  [ucast (drop_bit 14 (sequence_counter (increment_counter st))) AND 0x0f OR 0x70,
                   ucast (drop_bit 6 (sequence_counter (increment_counter st))),
                   ucast (sequence_counter (increment_counter st)) AND 0x3f OR 0x80] @
                  map bs [0..<7]),
             increment_counter st))"
  proof (cases "previous_timestamp st < now_ms tp")
    case True
    then show ?thesis
      by (cases "rng 10") (simp_all add: uuidv7_forward_fail uuidv7_forward upt_3_10)
  next
    case False
    then show ?thesis
      by (cases "rng 7") (simp_all add: uuidv7_same_fail uuidv7_same upt_7)
  qed
qed

section \<open>Counter continuity\<close>

lemma succ_mod_differs: "(Suc n) mod 2 ^ 48 \<noteq> n mod (2 ^ 48 :: nat)"
proof
  assume "Suc n mod 2 ^ 48 = n mod (2 ^ 48 :: nat)"
  then have "(2 ^ 48 :: nat) dvd Suc n - n"
    by (subst (asm) mod_eq_dvd_iff_nat) simp_all
  then show False
    by simp
qed

lemma unat_succ_counter:
  assumes "(sc::u32) \<le> 0x3ffff"
  shows "unat (sc + 1) = unat sc + 1"
proof -
  have "unat sc < 262144"
    using assms by (simp add: word_le_nat_alt)
  then show ?thesis
    by (simp add: unat_word_ariths)
qed

text \<open>
  C6, as the code has it. Of two calls made directly one after the other that both
  return, with \<open>previous_timestamp\<close> below \<open>2^48\<close> after the second, whose
  identifiers carry the same timestamp field, the second identifier's counter is the
  first one's plus 1, whichever branch the second call took. From
  \<open>previous_timestamp = 1000\<close> and \<open>sequence_counter = 5\<close> with the clock at 1000
  the identifier decodes to timestamp 1000 and counter 6.
\<close>

theorem counter_continuity:
  "(uuidv7 st_a tp_a junk_a rng_a = (Inr uuid_a, st_b) \<and>
    uuidv7 st_b tp_b junk_b rng_b = (Inr uuid_b, st_c) \<and>
    unat (previous_timestamp st_c) < 2 ^ 48 \<and>
    decoded_timestamp uuid_a = decoded_timestamp uuid_b \<longrightarrow>
      decoded_counter uuid_b = decoded_counter uuid_a + 1 \<and>
      unat (decoded_counter uuid_b) = unat (decoded_counter uuid_a) + 1) \<and>
   (previous_timestamp st = 1000 \<and> sequence_counter st = 5 \<and> now_ms tp = 1000 \<and>
    uuidv7 st tp junk rng = (Inr uuid, st') \<longrightarrow>
      decoded_timestamp uuid = 1000 \<and> decoded_counter uuid = 6)"
proof (intro conjI impI)
  assume a: "uuidv7 st_a tp_a junk_a rng_a = (Inr uuid_a, st_b) \<and>
    uuidv7 st_b tp_b junk_b rng_b = (Inr uuid_b, st_c) \<and>
    unat (previous_timestamp st_c) < 2 ^ 48 \<and>
    decoded_timestamp uuid_a = decoded_timestamp uuid_b"
  then have call1: "uuidv7 st_a tp_a junk_a rng_a = (Inr uuid_a, st_b)"
    and call2: "uuidv7 st_b tp_b junk_b rng_b = (Inr uuid_b, st_c)"
    and bound: "unat (previous_timestamp st_c) < 2 ^ 48"
    and same_ts: "decoded_timestamp uuid_a = decoded_timestamp uuid_b"
    by simp_all
  have range: "sequence_counter st_b \<le> 0x3ffff"
    using call1 by (rule success_counter_range)
  have ts1: "decoded_timestamp uuid_a = unat (previous_timestamp st_b) mod 2 ^ 48"
    using call1 by (rule success_decoded_timestamp)
  have ts2: "decoded_timestamp uuid_b = unat (previous_timestamp st_c)"
    using success_decoded_timestamp [OF call2] bound by simp
  have clock: "now_ms tp_b \<le> previous_timestamp st_b"
    using call2
  proof (cases rule: uuidv7_success_cases)
    case (forward bs)
    then have "previous_timestamp st_c = now_ms tp_b"
      by simp
    with forward(1) have less: "unat (previous_timestamp st_b) < unat (previous_timestamp st_c)"
      by (simp add: word_less_nat_alt)
    with bound have "unat (previous_timestamp st_b) mod 2 ^ 48 = unat (previous_timestamp st_b)"
      by simp
    with same_ts ts1 ts2 less show ?thesis
      by simp
  next
    case (same bs)
    then show ?thesis
      by simp
  qed
  have no_overflow: "\<not> 0x3ffff < sequence_counter st_b + 1"
  proof
    assume "0x3ffff < sequence_counter st_b + 1"
    then have "decoded_timestamp uuid_b = Suc (unat (previous_timestamp st_b)) mod 2 ^ 48"
      by (simp add: same_tick_timestamp [OF clock call2])
    with same_ts ts1 show False
      using succ_mod_differs [of "unat (previous_timestamp st_b)"] by simp
  qed
  from clock have "\<not> previous_timestamp st_b < now_ms tp_b"
    by simp
  from same_tick_state [OF this, of junk_b rng_b] call2 have "st_c = increment_counter st_b"
    by simp
  with no_overflow have "sequence_counter st_c = sequence_counter st_b + 1"
    by (simp add: increment_counter_no_overflow)
  then show step: "decoded_counter uuid_b = decoded_counter uuid_a + 1"
    by (simp add: success_decoded_counter [OF call1] success_decoded_counter [OF call2])
  show "unat (decoded_counter uuid_b) = unat (decoded_counter uuid_a) + 1"
    unfolding step using range
    by (simp only: success_decoded_counter [OF call1] unat_succ_counter)
next
  assume a: "previous_timestamp st = 1000 \<and> sequence_counter st = 5 \<and> now_ms tp = 1000 \<and>
    uuidv7 st tp junk rng = (Inr uuid, st')"
  then have call: "uuidv7 st tp junk rng = (Inr uuid, st')"
    and clock: "now_ms tp \<le> previous_timestamp st"
    by simp_all
  from a show "decoded_timestamp uuid = 1000"
    by (simp add: same_tick_timestamp [OF clock call])
  from clock have "\<not> previous_timestamp st < now_ms tp"
    by simp
  from same_tick_state [OF this, of junk rng] call have "st' = increment_counter st"
    by simp
  with a have "sequence_counter st' = 6"
    by (simp add: increment_counter_def Let_def)
  then show "decoded_counter uuid = 6"
    by (simp add: success_decoded_counter [OF call])
qed

theorem counter_continuity_witness:
  "uuidv7 \<lparr>sequence_counter = 4, previous_timestamp = 1000\<rparr> \<lparr>tv_sec = 1, tv_usec = 0\<rparr>
      zero_heap (rng_const 0xAB)
    = (Inr [0, 0, 0, 0, 3, 232, 112, 0, 133, 171, 171, 171, 171, 171, 171, 171],
       \<lparr>sequence_counter = 5, previous_timestamp = 1000\<rparr>)
   \<and> uuidv7 \<lparr>sequence_counter = 5, previous_timestamp = 1000\<rparr> \<lparr>tv_sec = 1, tv_usec = 0\<rparr>
      zero_heap (rng_const 0xCD)
    = (Inr [0, 0, 0, 0, 3, 232, 112, 0, 134, 205, 205, 205, 205, 205, 205, 205],
       \<lparr>sequence_counter = 6, previous_timestamp = 1000\<rparr>)
   \<and> unat (previous_timestamp \<lparr>sequence_counter = 6, previous_timestamp = 1000\<rparr>) < 2 ^ 48
   \<and> decoded_timestamp [0, 0, 0, 0, 3, 232, 112, 0, 133, 171, 171, 171, 171, 171, 171, 171]
       = decoded_timestamp [0, 0, 0, 0, 3, 232, 112, 0, 134, 205, 205, 205, 205, 205, 205, 205]
   \<and> decoded_counter [0, 0, 0, 0, 3, 232, 112, 0, 134, 205, 205, 205, 205, 205, 205, 205]
       = decoded_counter [0, 0, 0, 0, 3, 232, 112, 0, 133, 171, 171, 171, 171, 171, 171, 171] + 1
   \<and> now_ms \<lparr>tv_sec = 1, tv_usec = 0\<rparr> = 1000
   \<and> decoded_timestamp [0, 0, 0, 0, 3, 232, 112, 0, 134, 205, 205, 205, 205, 205, 205, 205] = 1000
   \<and> decoded_counter [0, 0, 0, 0, 3, 232, 112, 0, 134, 205, 205, 205, 205, 205, 205, 205] = 6"
proof -
  have call1: "uuidv7 \<lparr>sequence_counter = 4, previous_timestamp = 1000\<rparr>
      \<lparr>tv_sec = 1, tv_usec = 0\<rparr> zero_heap (rng_const 0xAB)
    = (Inr [0, 0, 0, 0, 3, 232, 112, 0, 133, 171, 171, 171, 171, 171, 171, 171],
       \<lparr>sequence_counter = 5, previous_timestamp = 1000\<rparr>)"
    by (simp add: uuidv7_eval)
  have call2: "uuidv7 \<lparr>sequence_counter = 5, previous_timestamp = 1000\<rparr>
      \<lparr>tv_sec = 1, tv_usec = 0\<rparr> zero_heap (rng_const 0xCD)
    = (Inr [0, 0, 0, 0, 3, 232, 112, 0, 134, 205, 205, 205, 205, 205, 205, 205],
       \<lparr>sequence_counter = 6, previous_timestamp = 1000\<rparr>)"
    by (simp add: uuidv7_eval)
  have clock: "now_ms \<lparr>tv_sec = 1, tv_usec = 0\<rparr> = 1000"
    by (simp add: now_ms_def signed_divide_int_def)
  have same_ts:
    "decoded_timestamp [0, 0, 0, 0, 3, 232, 112, 0, 133, 171, 171, 171, 171, 171, 171, 171]
       = decoded_timestamp [0, 0, 0, 0, 3, 232, 112, 0, 134, 205, 205, 205, 205, 205, 205, 205]"
    by (simp add: decoded_timestamp_def)
  show ?thesis
    using call1 call2 clock same_ts
      counter_continuity [where st_a = "\<lparr>sequence_counter = 4, previous_timestamp = 1000\<rparr>"
        and tp_a = "\<lparr>tv_sec = 1, tv_usec = 0\<rparr>" and junk_a = zero_heap
        and rng_a = "rng_const 0xAB"
        and uuid_a = "[0, 0, 0, 0, 3, 232, 112, 0, 133, 171, 171, 171, 171, 171, 171, 171]"
        and st_b = "\<lparr>sequence_counter = 5, previous_timestamp = 1000\<rparr>"
        and tp_b = "\<lparr>tv_sec = 1, tv_usec = 0\<rparr>" and junk_b = zero_heap
        and rng_b = "rng_const 0xCD"
        and uuid_b = "[0, 0, 0, 0, 3, 232, 112, 0, 134, 205, 205, 205, 205, 205, 205, 205]"
        and st_c = "\<lparr>sequence_counter = 6, previous_timestamp = 1000\<rparr>"
        and st = "\<lparr>sequence_counter = 5, previous_timestamp = 1000\<rparr>"
        and tp = "\<lparr>tv_sec = 1, tv_usec = 0\<rparr>" and junk = zero_heap
        and rng = "rng_const 0xCD"
        and uuid = "[0, 0, 0, 0, 3, 232, 112, 0, 134, 205, 205, 205, 205, 205, 205, 205]"
        and st' = "\<lparr>sequence_counter = 6, previous_timestamp = 1000\<rparr>"]
    by (simp add: decoded_counter_def read_counter_def)
qed

text \<open>
  C6, as stated, fails in two ways, each for identifiers returned one after the other
  with the same timestamp field 1000. A call that raises between two calls that return
  has taken its counter step: the counters are 6 and 8. And a clock that moves forward
  by \<open>2^48\<close> ms leaves the timestamp field as it was while the counter is drawn
  afresh from the random bytes: the counters are 6 and 60139.
\<close>

theorem same_timestamp_counters_not_one_apart:
  "identifiers (calls \<lparr>sequence_counter = 5, previous_timestamp = 1000\<rparr>
       [(\<lparr>tv_sec = 1, tv_usec = 0\<rparr>, zero_heap, rng_const 0xAB),
        (\<lparr>tv_sec = 1, tv_usec = 0\<rparr>, zero_heap, rng_fail),
        (\<lparr>tv_sec = 1, tv_usec = 0\<rparr>, zero_heap, rng_const 0xAB)])
      = [[0, 0, 0, 0, 3, 232, 112, 0, 134, 171, 171, 171, 171, 171, 171, 171],
         [0, 0, 0, 0, 3, 232, 112, 0, 136, 171, 171, 171, 171, 171, 171, 171]]
   \<and> decoded_timestamp [0, 0, 0, 0, 3, 232, 112, 0, 134, 171, 171, 171, 171, 171, 171, 171]
       = decoded_timestamp [0, 0, 0, 0, 3, 232, 112, 0, 136, 171, 171, 171, 171, 171, 171, 171]
   \<and> (uint (decoded_counter [0, 0, 0, 0, 3, 232, 112, 0, 136, 171, 171, 171, 171, 171, 171, 171])
        - uint (decoded_counter [0, 0, 0, 0, 3, 232, 112, 0, 134, 171, 171, 171, 171, 171, 171, 171]))
       mod 262144 = 2
   \<and> (uint (decoded_counter [0, 0, 0, 0, 3, 232, 112, 0, 134, 171, 171, 171, 171, 171, 171, 171])
        - uint (decoded_counter [0, 0, 0, 0, 3, 232, 112, 0, 136, 171, 171, 171, 171, 171, 171, 171]))
       mod 262144 = 262142
   \<and> calls \<lparr>sequence_counter = 5, previous_timestamp = 1000\<rparr>
       [(\<lparr>tv_sec = 1, tv_usec = 0\<rparr>, zero_heap, rng_const 0xAB),
        (\<lparr>tv_sec = 281474976711, tv_usec = 656000\<rparr>, zero_heap, rng_const 0xAB)]
      = [(Inr [0, 0, 0, 0, 3, 232, 112, 0, 134, 171, 171, 171, 171, 171, 171, 171],
          \<lparr>sequence_counter = 6, previous_timestamp = 1000\<rparr>),
         (Inr [0, 0, 0, 0, 3, 232, 115, 171, 171, 171, 171, 171, 171, 171, 171, 171],
          \<lparr>sequence_counter = 60139, previous_timestamp = 281474976711656\<rparr>)]
   \<and> decoded_timestamp [0, 0, 0, 0, 3, 232, 112, 0, 134, 171, 171, 171, 171, 171, 171, 171]
       = decoded_timestamp [0, 0, 0, 0, 3, 232, 115, 171, 171, 171, 171, 171, 171, 171, 171, 171]
   \<and> (uint (decoded_counter [0, 0, 0, 0, 3, 232, 115, 171, 171, 171, 171, 171, 171, 171, 171, 171])
        - uint (decoded_counter [0, 0, 0, 0, 3, 232, 112, 0, 134, 171, 171, 171, 171, 171, 171, 171]))
       mod 262144 = 60133
   \<and> (uint (decoded_counter [0, 0, 0, 0, 3, 232, 112, 0, 134, 171, 171, 171, 171, 171, 171, 171])
        - uint (decoded_counter [0, 0, 0, 0, 3, 232, 115, 171, 171, 171, 171, 171, 171, 171, 171, 171]))
       mod 262144 = 202011"
  by (simp add: uuidv7_eval decoded_timestamp_def decoded_counter_def)

section \<open>Order of identifiers\<close>

lemma be_nat_snoc: "be_nat (xs @ [x]) = be_nat xs * 256 + unat x"
  by (simp add: be_nat_def)

lemma be_nat_append: "be_nat (xs @ ys) = be_nat xs * 256 ^ length ys + be_nat ys"
proof (induction ys rule: rev_induct)
  case Nil
  then show ?case
    by (simp add: be_nat_def)
next
  case (snoc y ys)
  have "be_nat (xs @ ys @ [y]) = be_nat ((xs @ ys) @ [y])"
    by simp
  also have "\<dots> = be_nat (xs @ ys) * 256 + unat y"
    by (rule be_nat_snoc)
  finally show ?case
    by (simp add: snoc.IH be_nat_snoc algebra_simps)
qed

lemma be_nat_bound: "be_nat xs < 256 ^ length xs"
proof (induction xs rule: rev_induct)
  case Nil
  then show ?case
    by (simp add: be_nat_def)
next
  case (snoc x xs)
  have "unat x < 256"
    using unsigned_less [of x, where 'a = nat] by simp
  moreover from snoc have "be_nat xs + 1 \<le> 256 ^ length xs"
    by simp
  then have "(be_nat xs + 1) * 256 \<le> 256 ^ length xs * 256"
    by (rule mult_le_mono1)
  ultimately show ?case
    by (simp add: be_nat_snoc)
qed

lemma unat_magic_version: "unat ((x::u8) AND 0x0f OR 0x70) = unat x mod 16 + 112"
proof -
  have "(x AND 0x0f) AND 0x70 = 0"
    by (simp add: and.assoc)
  with word_plus_and_or [of "x AND 0x0f" "0x70"]
  have "x AND 0x0f OR 0x70 = (x AND 0x0f) + 0x70"
    by simp
  moreover have "unat (x AND 0x0f) = unat x mod 16"
    unfolding and_15 by (subst unsigned_take_bit_eq) (simp add: take_bit_eq_mod)
  moreover have "unat x mod 16 < 16"
    by simp
  ultimately show ?thesis
    by (simp add: unat_word_ariths)
qed

lemma unat_magic_variant: "unat ((x::u8) AND 0x3f OR 0x80) = unat x mod 64 + 128"
proof -
  have "(x AND 0x3f) AND 0x80 = 0"
    by (simp add: and.assoc)
  with word_plus_and_or [of "x AND 0x3f" "0x80"]
  have "x AND 0x3f OR 0x80 = (x AND 0x3f) + 0x80"
    by simp
  moreover have "unat (x AND 0x3f) = unat x mod 64"
    unfolding and_63 by (subst unsigned_take_bit_eq) (simp add: take_bit_eq_mod)
  moreover have "unat x mod 64 < 64"
    by simp
  ultimately show ?thesis
    by (simp add: unat_word_ariths)
qed

lemma head_value:
  fixes x y z :: u8
  defines "C \<equiv> unat (read_counter x y z)"
  shows "be_nat (time_bytes tms @ [x AND 0x0f OR 0x70, y, z AND 0x3f OR 0x80]) =
    (unat tms mod 2 ^ 48) * 2 ^ 24 + 0x700080 + (C div 64) * 256 + C mod 64"
proof -
  have y: "unat y < 256"
    using unsigned_less [of y, where 'a = nat] by simp
  define K where "K = unat y + (unat x mod 16) * 256"
  have C: "C = unat z mod 64 + K * 64"
    by (simp add: C_def K_def unat_read_counter)
  have "C div 64 = K" and "C mod 64 = unat z mod 64"
    unfolding C by simp_all
  then have "C div 64 = unat y + (unat x mod 16) * 256" and "C mod 64 = unat z mod 64"
    by (simp_all add: K_def)
  moreover have "be_nat [x AND 0x0f OR 0x70, y, z AND 0x3f OR 0x80] =
      (unat x mod 16 + 112) * 65536 + unat y * 256 + (unat z mod 64 + 128)"
    by (simp add: be_nat_def unat_magic_version unat_magic_variant)
  ultimately show ?thesis
    by (simp add: be_nat_append be_nat_time_bytes)
qed

lemma success_uuid_int:
  assumes "uuidv7 st tp junk rng = (Inr uuid, st')"
    and "unat (previous_timestamp st') < 2 ^ 48"
  shows "state_rank st' * 2 ^ 56 \<le> uuid_int uuid \<and>
    uuid_int uuid < (state_rank st' + 1) * 2 ^ 56"
proof -
  obtain x y z rest where uuid: "uuid = (time_bytes (previous_timestamp st') @
        [x AND 0x0f OR 0x70, y, z AND 0x3f OR 0x80]) @ rest"
    and len: "length rest = 7" and sc: "read_counter x y z = sequence_counter st'"
    using assms(1)
  proof (cases rule: uuidv7_success_cases)
    case (forward bs)
    have "bs 0 AND 7 OR 0x70 = (bs 0 AND 0xf7) AND 0x0f OR 0x70"
      by (simp add: and.assoc)
    with forward show ?thesis
      by (intro that [of "bs 0 AND 0xf7" "bs 1" "bs 2" "[bs 3, bs 4, bs 5, bs 6, bs 7, bs 8, bs 9]"])
        simp_all
  next
    case (same bs)
    then have "sequence_counter st' \<le> 0x3ffff"
      by (simp add: increment_counter_range)
    then have "read_counter (ucast (drop_bit 14 (sequence_counter st')))
        (ucast (drop_bit 6 (sequence_counter st'))) (ucast (sequence_counter st'))
        = sequence_counter st'"
      by (rule read_written_counter)
    with same(3) show ?thesis
      by (intro that [of "ucast (drop_bit 14 (sequence_counter st'))"
            "ucast (drop_bit 6 (sequence_counter st'))" "ucast (sequence_counter st')"
            "[bs 0, bs 1, bs 2, bs 3, bs 4, bs 5, bs 6]"])
        simp_all
  qed
  have head: "be_nat (time_bytes (previous_timestamp st') @
        [x AND 0x0f OR 0x70, y, z AND 0x3f OR 0x80]) = state_rank st'"
    using assms(2) by (simp only: head_value sc state_rank_def mod_less)
  have "be_nat rest < 256 ^ 7"
    using be_nat_bound [of rest] len by simp
  then have low: "be_nat rest < 2 ^ 56"
    by simp
  have "uuid_int uuid = be_nat (time_bytes (previous_timestamp st') @
        [x AND 0x0f OR 0x70, y, z AND 0x3f OR 0x80]) * 256 ^ length rest + be_nat rest"
    unfolding uuid_int_def uuid by (rule be_nat_append)
  then have "uuid_int uuid = state_rank st' * 2 ^ 56 + be_nat rest"
    unfolding head len by simp
  with low show ?thesis
    by simp
qed

lemma state_rank_mono:
  assumes "state_less a b"
    and "sequence_counter a \<le> 0x3ffff" and "sequence_counter b \<le> 0x3ffff"
  shows "state_rank a < state_rank b"
proof -
  define Ca Cb where "Ca = unat (sequence_counter a)" and "Cb = unat (sequence_counter b)"
  define Ta Tb where "Ta = unat (previous_timestamp a)" and "Tb = unat (previous_timestamp b)"
  have Ca: "Ca < 262144" and Cb: "Cb < 262144"
    using assms(2,3) by (simp_all add: Ca_def Cb_def word_le_nat_alt)
  have da: "Ca div 64 < 4096" and db: "Cb div 64 < 4096"
    using Ca Cb by (simp_all add: less_mult_imp_div_less)
  have ma: "Ca mod 64 < 64" and mb: "Cb mod 64 < 64"
    by simp_all
  from assms(1) consider (time) "Ta < Tb" | (counter) "Ta = Tb" and "Ca < Cb"
    by (auto simp add: state_less_def word_less_nat_alt Ta_def Tb_def Ca_def Cb_def)
  then have "Ta * 2 ^ 24 + 0x700080 + (Ca div 64) * 256 + Ca mod 64
      < Tb * 2 ^ 24 + 0x700080 + (Cb div 64) * 256 + Cb mod 64"
  proof cases
    case time
    then have "(Ta + 1) * 2 ^ 24 \<le> Tb * 2 ^ 24"
      by (intro mult_le_mono1) simp
    with da ma show ?thesis
      by simp
  next
    case counter
    have "Ca div 64 \<le> Cb div 64"
      using counter(2) by (intro div_le_mono) simp
    moreover have "Ca = (Ca div 64) * 64 + Ca mod 64" and "Cb = (Cb div 64) * 64 + Cb mod 64"
      by simp_all
    ultimately have "(Ca div 64) * 256 + Ca mod 64 < (Cb div 64) * 256 + Cb mod 64"
      using counter(2) ma mb by linarith
    with counter(1) show ?thesis
      by simp
  qed
  then show ?thesis
    by (simp add: state_rank_def Ta_def Tb_def Ca_def Cb_def)
qed

lemma increment_counter_advances:
  assumes "sequence_counter st \<le> 0x3ffff" and "unat (previous_timestamp st) < 2 ^ 48"
  shows "state_less st (increment_counter st)"
proof (cases "0x3ffff < sequence_counter st + 1")
  case True
  have "unat (previous_timestamp st + 1) = unat (previous_timestamp st) + 1"
    using assms(2) by (simp add: unat_word_ariths)
  then have "previous_timestamp st < previous_timestamp st + 1"
    by (simp add: word_less_nat_alt)
  with True show ?thesis
    by (simp add: increment_counter_overflow state_less_def)
next
  case False
  have "sequence_counter st < sequence_counter st + 1"
    using unat_succ_counter [OF assms(1)] by (simp add: word_less_nat_alt)
  with False show ?thesis
    by (simp add: increment_counter_no_overflow state_less_def)
qed

lemma call_advances_state:
  assumes "sequence_counter st \<le> 0x3ffff" and "unat (previous_timestamp st) < 2 ^ 48"
  shows "uuidv7 st tp junk rng = (Inl ERRCODE_INTERNAL_ERROR, st) \<or>
    state_less st (snd (uuidv7 st tp junk rng))"
proof (cases "previous_timestamp st < now_ms tp")
  case True
  then show ?thesis
    by (cases "rng 10") (simp_all add: uuidv7_forward_fail uuidv7_forward state_less_def)
next
  case False
  then show ?thesis
    using increment_counter_advances [OF assms] by (simp add: same_tick_state)
qed

lemma later_identifiers_above:
  assumes "sequence_counter st \<le> 0x3ffff" and "unat (previous_timestamp st) < 2 ^ 48"
    and "\<forall>r \<in> set (calls st envs). unat (previous_timestamp (snd r)) < 2 ^ 48"
  shows "\<forall>u \<in> set (identifiers (calls st envs)). (state_rank st + 1) * 2 ^ 56 \<le> uuid_int u"
  using assms
proof (induction envs arbitrary: st)
  case Nil
  then show ?case
    by simp
next
  case (Cons env envs)
  obtain tp junk rng where env: "env = (tp, junk, rng)"
    by (cases env) auto
  obtain res st1 where call: "uuidv7 st tp junk rng = (res, st1)"
    by (cases "uuidv7 st tp junk rng") auto
  have run: "calls st (env # envs) = (res, st1) # calls st1 envs"
    by (simp add: env call)
  have range1: "sequence_counter st1 \<le> 0x3ffff"
    using uuidv7_counter_range [OF Cons.prems(1), of tp junk rng] call by simp
  have time1: "unat (previous_timestamp st1) < 2 ^ 48"
    using Cons.prems(3) run by simp
  have rest: "\<forall>r \<in> set (calls st1 envs). unat (previous_timestamp (snd r)) < 2 ^ 48"
    using Cons.prems(3) run by simp
  have later: "\<forall>u \<in> set (identifiers (calls st1 envs)).
      (state_rank st1 + 1) * 2 ^ 56 \<le> uuid_int u"
    using range1 time1 rest by (rule Cons.IH)
  from call_advances_state [OF Cons.prems(1,2), of tp junk rng] call
  consider (failed) "res = Inl ERRCODE_INTERNAL_ERROR" and "st1 = st"
    | (advanced) "state_less st st1"
    by auto
  then show ?case
  proof cases
    case failed
    with later show ?thesis
      by (simp add: run)
  next
    case advanced
    then have "state_rank st < state_rank st1"
      using Cons.prems(1) range1 by (rule state_rank_mono)
    then have up: "(state_rank st + 1) * 2 ^ 56 \<le> state_rank st1 * (2 ^ 56 :: nat)"
      by (intro mult_le_mono1) simp
    show ?thesis
    proof (cases res)
      case (Inl e)
      from later up show ?thesis
        by (fastforce simp add: run Inl)
    next
      case (Inr u)
      from call have "state_rank st1 * 2 ^ 56 \<le> uuid_int u"
        using success_uuid_int [of st tp junk rng u st1] time1 by (simp add: Inr)
      with later up show ?thesis
        by (fastforce simp add: run Inr)
    qed
  qed
qed

text \<open>
  C2, as the code has it. Take any calls made one after another in one backend, from
  any state, with any clock readings, memory contents and random bytes, some of which
  may raise. If after every call \<open>previous_timestamp\<close> is below \<open>2^48\<close>, the
  identifiers returned, read as 128-bit big-endian numbers, are strictly increasing in
  call order.
\<close>

theorem identifiers_strictly_increasing:
  assumes "\<forall>r \<in> set (calls st envs). unat (previous_timestamp (snd r)) < 2 ^ 48"
  shows "sorted_wrt (<) (map uuid_int (identifiers (calls st envs)))"
  using assms
proof (induction envs arbitrary: st)
  case Nil
  then show ?case
    by simp
next
  case (Cons env envs)
  obtain tp junk rng where env: "env = (tp, junk, rng)"
    by (cases env) auto
  obtain res st1 where call: "uuidv7 st tp junk rng = (res, st1)"
    by (cases "uuidv7 st tp junk rng") auto
  have run: "calls st (env # envs) = (res, st1) # calls st1 envs"
    by (simp add: env call)
  have time1: "unat (previous_timestamp st1) < 2 ^ 48"
    using Cons.prems run by simp
  have rest: "\<forall>r \<in> set (calls st1 envs). unat (previous_timestamp (snd r)) < 2 ^ 48"
    using Cons.prems run by simp
  then have sorted_rest: "sorted_wrt (<) (map uuid_int (identifiers (calls st1 envs)))"
    by (rule Cons.IH)
  show ?case
  proof (cases res)
    case (Inl e)
    with sorted_rest show ?thesis
      by (simp add: run)
  next
    case (Inr u)
    with call have success: "uuidv7 st tp junk rng = (Inr u, st1)"
      by simp
    then have "sequence_counter st1 \<le> 0x3ffff"
      by (rule success_counter_range)
    then have "\<forall>v \<in> set (identifiers (calls st1 envs)).
        (state_rank st1 + 1) * 2 ^ 56 \<le> uuid_int v"
      using time1 rest by (rule later_identifiers_above)
    moreover have "uuid_int u < (state_rank st1 + 1) * 2 ^ 56"
      using success_uuid_int [OF success time1] by simp
    ultimately have "\<forall>v \<in> set (identifiers (calls st1 envs)). uuid_int u < uuid_int v"
      by fastforce
    with sorted_rest show ?thesis
      by (simp add: run Inr)
  qed
qed

theorem identifiers_strictly_increasing_witness:
  "list_all (\<lambda>r. unat (previous_timestamp (snd r)) < 2 ^ 48)
     (calls \<lparr>sequence_counter = 5, previous_timestamp = 1000\<rparr>
       [(\<lparr>tv_sec = 1, tv_usec = 0\<rparr>, zero_heap, rng_const 0xFF),
        (\<lparr>tv_sec = 0, tv_usec = 999000\<rparr>, zero_heap, rng_fail),
        (\<lparr>tv_sec = 1, tv_usec = 0\<rparr>, zero_heap, rng_const 0x00),
        (\<lparr>tv_sec = 2, tv_usec = 0\<rparr>, zero_heap, rng_const 0xAB)])
   \<and> identifiers (calls \<lparr>sequence_counter = 5, previous_timestamp = 1000\<rparr>
       [(\<lparr>tv_sec = 1, tv_usec = 0\<rparr>, zero_heap, rng_const 0xFF),
        (\<lparr>tv_sec = 0, tv_usec = 999000\<rparr>, zero_heap, rng_fail),
        (\<lparr>tv_sec = 1, tv_usec = 0\<rparr>, zero_heap, rng_const 0x00),
        (\<lparr>tv_sec = 2, tv_usec = 0\<rparr>, zero_heap, rng_const 0xAB)])
      = [[0, 0, 0, 0, 3, 232, 112, 0, 134, 255, 255, 255, 255, 255, 255, 255],
         [0, 0, 0, 0, 3, 232, 112, 0, 136, 0, 0, 0, 0, 0, 0, 0],
         [0, 0, 0, 0, 7, 208, 115, 171, 171, 171, 171, 171, 171, 171, 171, 171]]
   \<and> sorted_wrt (<) (map uuid_int
        [[0, 0, 0, 0, 3, 232, 112, 0, 134, 255, 255, 255, 255, 255, 255, 255],
         [0, 0, 0, 0, 3, 232, 112, 0, 136, 0, 0, 0, 0, 0, 0, 0],
         [0, 0, 0, 0, 7, 208, 115, 171, 171, 171, 171, 171, 171, 171, 171, 171]])"
proof -
  have run: "calls \<lparr>sequence_counter = 5, previous_timestamp = 1000\<rparr>
       [(\<lparr>tv_sec = 1, tv_usec = 0\<rparr>, zero_heap, rng_const 0xFF),
        (\<lparr>tv_sec = 0, tv_usec = 999000\<rparr>, zero_heap, rng_fail),
        (\<lparr>tv_sec = 1, tv_usec = 0\<rparr>, zero_heap, rng_const 0x00),
        (\<lparr>tv_sec = 2, tv_usec = 0\<rparr>, zero_heap, rng_const 0xAB)]
    = [(Inr [0, 0, 0, 0, 3, 232, 112, 0, 134, 255, 255, 255, 255, 255, 255, 255],
        \<lparr>sequence_counter = 6, previous_timestamp = 1000\<rparr>),
       (Inl ERRCODE_INTERNAL_ERROR, \<lparr>sequence_counter = 7, previous_timestamp = 1000\<rparr>),
       (Inr [0, 0, 0, 0, 3, 232, 112, 0, 136, 0, 0, 0, 0, 0, 0, 0],
        \<lparr>sequence_counter = 8, previous_timestamp = 1000\<rparr>),
       (Inr [0, 0, 0, 0, 7, 208, 115, 171, 171, 171, 171, 171, 171, 171, 171, 171],
        \<lparr>sequence_counter = 60139, previous_timestamp = 2000\<rparr>)]"
    by (simp add: uuidv7_eval)
  have bound: "\<forall>r \<in> set (calls \<lparr>sequence_counter = 5, previous_timestamp = 1000\<rparr>
       [(\<lparr>tv_sec = 1, tv_usec = 0\<rparr>, zero_heap, rng_const 0xFF),
        (\<lparr>tv_sec = 0, tv_usec = 999000\<rparr>, zero_heap, rng_fail),
        (\<lparr>tv_sec = 1, tv_usec = 0\<rparr>, zero_heap, rng_const 0x00),
        (\<lparr>tv_sec = 2, tv_usec = 0\<rparr>, zero_heap, rng_const 0xAB)]).
      unat (previous_timestamp (snd r)) < 2 ^ 48"
    unfolding run by simp
  show ?thesis
    using bound identifiers_strictly_increasing [OF bound]
    unfolding run by simp
qed

text \<open>
  C2, as stated, holds for all clock values. A clock that passes \<open>2^48\<close> ms breaks it:
  the call at \<open>2^48 - 1\<close> ms returns an identifier that starts with six bytes 255, the
  next call at \<open>2^48\<close> ms one that starts with six bytes 0, which is the smaller
  number.
\<close>

theorem timestamp_wrap_breaks_order:
  "identifiers (calls \<lparr>sequence_counter = 0, previous_timestamp = 0\<rparr>
       [(\<lparr>tv_sec = 281474976710, tv_usec = 655000\<rparr>, zero_heap, rng_const 0xAB),
        (\<lparr>tv_sec = 281474976710, tv_usec = 656000\<rparr>, zero_heap, rng_const 0xAB)])
      = [[255, 255, 255, 255, 255, 255, 115, 171, 171, 171, 171, 171, 171, 171, 171, 171],
         [0, 0, 0, 0, 0, 0, 115, 171, 171, 171, 171, 171, 171, 171, 171, 171]]
   \<and> \<not> uuid_int [255, 255, 255, 255, 255, 255, 115, 171, 171, 171, 171, 171, 171, 171, 171, 171]
       < uuid_int [0, 0, 0, 0, 0, 0, 115, 171, 171, 171, 171, 171, 171, 171, 171, 171]"
  by (simp add: uuidv7_eval uuid_int_def be_nat_def)

end
